theory Spec2Isabelle
  imports Complex_Main "HOL-Library.Char_ord" "HOL-Library.List_Lexorder"
    "HOL-Library.Multiset"
begin

section \<open>Conventions of the embedding\<close>

text \<open>
  The analytical core (route parsing, trajectory sampling, conflict detection, hotspot
  aggregation, resolution proposals) is embedded function by function. Python floats are
  idealised as real numbers, Python's unbounded integers are \<open>int\<close>, strings are lists
  of 8-bit characters read as code points below 256, insertion-ordered dictionaries are
  association lists that keep the order of first insertion, and every \<open>raise\<close> of the
  source is an \<open>Inl\<close> result.
\<close>

datatype error =
    InvalidWaypoint string
  | RouteEmpty
  | RouteTooShort
  | SampleSecNotPositive
  | RouteDistanceNotPositive
  | ZeroDivisionError

section \<open>Strings\<close>

text \<open>The characters \<open>str.strip\<close> and \<open>str.split\<close> treat as whitespace, below 256.\<close>

definition is_space :: "char \<Rightarrow> bool" where
  "is_space c = (c \<in> set [CHR 0x09, CHR 0x0A, CHR 0x0B, CHR 0x0C, CHR 0x0D,
                           CHR 0x1C, CHR 0x1D, CHR 0x1E, CHR 0x1F, CHR 0x20,
                           CHR 0x85, CHR 0xA0])"

definition strip :: "string \<Rightarrow> string" where
  "strip s = rev (dropWhile is_space (rev (dropWhile is_space s)))"

text \<open>\<open>str.split()\<close> without argument: maximal runs of non-whitespace characters.\<close>

fun split_acc :: "string \<Rightarrow> string \<Rightarrow> string list" where
  "split_acc w [] = (if w = [] then [] else [w])"
| "split_acc w (c # cs) =
     (if is_space c then (if w = [] then split_acc [] cs else w # split_acc [] cs)
      else split_acc (w @ [c]) cs)"

definition split :: "string \<Rightarrow> string list" where
  "split s = split_acc [] s"

text \<open>
  \<open>str.lower\<close> and \<open>str.upper\<close>, character by character, on the ASCII letters.
  Python maps a character outside ASCII to characters outside ASCII again; the keys and
  keywords matched below are ASCII, so leaving those characters alone gives the same
  matches.
\<close>

definition lower_char :: "char \<Rightarrow> char" where
  "lower_char c =
     (case map_of (zip ''ABCDEFGHIJKLMNOPQRSTUVWXYZ'' ''abcdefghijklmnopqrstuvwxyz'') c of
        None \<Rightarrow> c | Some d \<Rightarrow> d)"

definition upper_char :: "char \<Rightarrow> char" where
  "upper_char c =
     (case map_of (zip ''abcdefghijklmnopqrstuvwxyz'' ''ABCDEFGHIJKLMNOPQRSTUVWXYZ'') c of
        None \<Rightarrow> c | Some d \<Rightarrow> d)"

definition lower :: "string \<Rightarrow> string" where
  "lower s = map lower_char s"

definition upper :: "string \<Rightarrow> string" where
  "upper s = map upper_char s"

definition startswith :: "string \<Rightarrow> string \<Rightarrow> bool" where
  "startswith s k = (take (length k) s = k)"

text \<open>\<open>k in s\<close> on strings: \<open>k\<close> occurs as a contiguous substring of \<open>s\<close>.\<close>

fun contains :: "string \<Rightarrow> string \<Rightarrow> bool" where
  "contains [] k = (k = [])"
| "contains (c # cs) k = (startswith (c # cs) k \<or> contains cs k)"

section \<open>Route parser (parsing.py)\<close>

definition is_digit :: "char \<Rightarrow> bool" where
  "is_digit c = (c \<in> set ''0123456789'')"

definition digit_val :: "char \<Rightarrow> nat" where
  "digit_val c = (of_char c :: nat) - 48"

definition nat_of_digits :: "string \<Rightarrow> nat" where
  "nat_of_digits s = foldl (\<lambda>a c. 10 * a + digit_val c) 0 s"

text \<open>
  \<open>float(s)\<close> on a string of the form \<open>digits\<close> or \<open>digits.digits\<close>, as the
  pattern's degree groups are: the decimal value, as a real number.
\<close>

definition float_of :: "string \<Rightarrow> real" where
  "float_of s =
     (let ip = takeWhile (\<lambda>c. c \<noteq> CHR ''.'') s;
          fp = drop 1 (dropWhile (\<lambda>c. c \<noteq> CHR ''.'') s)
      in real (nat_of_digits ip) + real (nat_of_digits fp) / 10 ^ length fp)"

text \<open>
  The group \<open>\d+(?:\.\d+)?\<close> at the head of a string, with the rest. What follows the
  group in \<open>WAYPOINT_RE\<close> is a letter, so only the longest match can succeed and no
  backtracking is modelled.
\<close>

definition take_number :: "string \<Rightarrow> (string \<times> string) option" where
  "take_number s =
     (let ip = takeWhile is_digit s; r = dropWhile is_digit s in
      if ip = [] then None
      else (case r of
              [] \<Rightarrow> Some (ip, r)
            | c # r' \<Rightarrow>
                if c = CHR ''.'' \<and> takeWhile is_digit r' \<noteq> []
                then Some (ip @ [c] @ takeWhile is_digit r', dropWhile is_digit r')
                else Some (ip, r)))"

text \<open>
  \<open>WAYPOINT_RE.match\<close> under \<open>re.IGNORECASE\<close>: the groups \<open>lat_deg\<close>,
  \<open>lat_dir\<close>, \<open>lon_deg\<close>, \<open>lon_dir\<close> when the whole string matches.
\<close>

definition WAYPOINT_RE_match :: "string \<Rightarrow> (string \<times> char \<times> string \<times> char) option" where
  "WAYPOINT_RE_match s =
     (case take_number s of
        None \<Rightarrow> None
      | Some (lat_deg, r1) \<Rightarrow>
          (case r1 of
             lat_dir # sep # r2 \<Rightarrow>
               if lat_dir \<in> set ''NSns'' \<and> sep = CHR ''/''
               then (case take_number r2 of
                       None \<Rightarrow> None
                     | Some (lon_deg, r3) \<Rightarrow>
                         (case r3 of
                            [lon_dir] \<Rightarrow>
                              if lon_dir \<in> set ''EWew''
                              then Some (lat_deg, lat_dir, lon_deg, lon_dir) else None
                          | _ \<Rightarrow> None))
               else None
           | _ \<Rightarrow> None))"

definition parse_waypoint :: "string \<Rightarrow> error + (real \<times> real)" where
  "parse_waypoint token =
     (case WAYPOINT_RE_match (strip token) of
        None \<Rightarrow> Inl (InvalidWaypoint token)
      | Some (lat_deg, lat_dir, lon_deg, lon_dir) \<Rightarrow>
          (let lat = float_of lat_deg;
               lon = float_of lon_deg;
               lat = (if upper_char lat_dir = CHR ''S'' then - lat else lat);
               lon = (if upper_char lon_dir = CHR ''W'' then - lon else lon)
           in Inr (lat, lon)))"

definition AIRPORT_COORDINATES :: "(string \<times> (real \<times> real)) list" where
  "AIRPORT_COORDINATES = [
   (''CYYZ'', (43.6777, -79.6248)),
   (''CYVR'', (49.1947, -123.1839)),
   (''CYUL'', (45.4706, -73.7408)),
   (''CYOW'', (45.3225, -75.6692)),
   (''CYYC'', (51.1225, -114.0139)),
   (''CYEG'', (53.3097, -113.5797)),
   (''CYWG'', (49.9100, -97.2399)),
   (''CYQB'', (46.7911, -71.3933)),
   (''CYHZ'', (44.8808, -63.5086)),
   (''CYXE'', (52.1708, -106.6997)),
   (''CYQR'', (50.4319, -104.6656)),
   (''CYYJ'', (48.6469, -123.4258)),
   (''CYYT'', (47.6186, -52.7519)),
   (''CYQM'', (46.1122, -64.6786)),
   (''CYFC'', (45.8689, -66.5372)),
   (''CYSJ'', (45.3161, -65.8903)),
   (''CYQI'', (43.8269, -66.0881)),
   (''CYDF'', (49.2108, -57.3914)),
   (''CYQX'', (48.9369, -54.5681)),
   (''CYXY'', (60.7096, -135.0674)),
   (''CYZF'', (62.4628, -114.4403)),
   (''CYFB'', (63.7561, -68.5558)),
   (''CYTZ'', (43.6275, -79.3962)),
   (''CYOO'', (43.9228, -78.8950)),
   (''CYKF'', (43.4608, -80.3786)),
   (''CYXU'', (43.0356, -81.1539)),
   (''CYHM'', (43.1736, -79.9350)),
   (''CYAM'', (46.4853, -84.5094)),
   (''CYQA'', (44.9747, -79.3033)),
   (''CYTS'', (48.5697, -81.3767)),
   (''CYVO'', (48.0533, -77.7828)),
   (''CYMX'', (45.6795, -74.0387)),
   (''CYHU'', (45.5175, -73.4169)),
   (''CYQY'', (46.1614, -60.0478)),
   (''CYPR'', (54.2861, -130.4447)),
   (''CYXS'', (53.8894, -122.6789)),
   (''CYKA'', (50.7022, -120.4444)),
   (''CYLW'', (49.9561, -119.3778)),
   (''CYCD'', (49.0522, -123.8700)),
   (''CYXX'', (49.0253, -122.3608)),
   (''CYBL'', (49.9508, -125.2708)),
   (''CYXC'', (49.6108, -115.7822)),
   (''CYYF'', (49.4631, -119.6022)),
   (''CYQQ'', (49.7108, -124.8867)),
   (''CYZT'', (50.6806, -127.3667))]"

definition get_airport_coords :: "string option \<Rightarrow> (real \<times> real) option" where
  "get_airport_coords airport_code =
     (case airport_code of
        None \<Rightarrow> None
      | Some code \<Rightarrow>
          if code = [] then None
          else map_of AIRPORT_COORDINATES (upper (strip code)))"

fun parse_tokens :: "string list \<Rightarrow> error + (real \<times> real) list" where
  "parse_tokens [] = Inr []"
| "parse_tokens (t # ts) =
     (case parse_waypoint t of
        Inl e \<Rightarrow> Inl e
      | Inr p \<Rightarrow> (case parse_tokens ts of Inl e \<Rightarrow> Inl e | Inr ps \<Rightarrow> Inr (p # ps)))"

definition parse_route ::
  "string \<Rightarrow> string option \<Rightarrow> string option \<Rightarrow> error + (real \<times> real) list" where
  "parse_route route_str departure_airport arrival_airport =
     (if strip route_str = [] then Inl RouteEmpty
      else (case parse_tokens (split route_str) of
              Inl e \<Rightarrow> Inl e
            | Inr points \<Rightarrow>
                (case points of
                   [p] \<Rightarrow>
                     (case (get_airport_coords departure_airport,
                            get_airport_coords arrival_airport) of
                        (Some dep_coords, Some arr_coords) \<Rightarrow> Inr [dep_coords, p, arr_coords]
                      | (Some dep_coords, None) \<Rightarrow> Inr [dep_coords, p]
                      | (None, Some arr_coords) \<Rightarrow> Inr [p, arr_coords]
                      | (None, None) \<Rightarrow> Inl RouteTooShort)
                 | _ \<Rightarrow> if length points < 2 then Inl RouteTooShort else Inr points)))"

section \<open>Flight plans, aircraft classes and validation (models.py)\<close>

record AircraftConstraints =
  min_speed_kt :: int
  max_speed_kt :: int
  min_altitude_ft :: int
  max_altitude_ft :: int

text \<open>
  The source names constraint classes and aircraft categories by string constants; they
  are the constructors of two enumerations here, so the lookups
  \<open>AIRCRAFT_CONSTRAINTS[category]\<close> and \<open>CATEGORY_TO_CONSTRAINTS.get\<close> are total.
\<close>

datatype constraint_class = Jet | Turboprop | Prop | Helicopter

datatype aircraft_category = Widebody | Narrowbody | Regional | Cargo

fun AIRCRAFT_CONSTRAINTS :: "constraint_class \<Rightarrow> AircraftConstraints" where
  "AIRCRAFT_CONSTRAINTS Jet =
     \<lparr>min_speed_kt = 200, max_speed_kt = 550, min_altitude_ft = 10000, max_altitude_ft = 45000\<rparr>"
| "AIRCRAFT_CONSTRAINTS Turboprop =
     \<lparr>min_speed_kt = 150, max_speed_kt = 450, min_altitude_ft = 5000, max_altitude_ft = 41000\<rparr>"
| "AIRCRAFT_CONSTRAINTS Prop =
     \<lparr>min_speed_kt = 90, max_speed_kt = 220, min_altitude_ft = 1000, max_altitude_ft = 18000\<rparr>"
| "AIRCRAFT_CONSTRAINTS Helicopter =
     \<lparr>min_speed_kt = 60, max_speed_kt = 160, min_altitude_ft = 0, max_altitude_ft = 10000\<rparr>"

text \<open>The table \<open>KNOWN_AIRCRAFT\<close>, in the order the dictionary literal lists its keys.\<close>

definition KNOWN_AIRCRAFT :: "(string \<times> aircraft_category) list" where
  "KNOWN_AIRCRAFT = [
   (''boeing 787-9'', Widebody),
   (''boeing 787'', Widebody),
   (''787-9'', Widebody),
   (''787'', Widebody),
   (''boeing 777-300er'', Widebody),
   (''boeing 777'', Widebody),
   (''777-300er'', Widebody),
   (''777'', Widebody),
   (''airbus a330'', Widebody),
   (''a330'', Widebody),
   (''boeing 737-800'', Narrowbody),
   (''boeing 737 max 8'', Narrowbody),
   (''boeing 737 max'', Narrowbody),
   (''boeing 737'', Narrowbody),
   (''737-800'', Narrowbody),
   (''737 max 8'', Narrowbody),
   (''737 max'', Narrowbody),
   (''737'', Narrowbody),
   (''airbus a320'', Narrowbody),
   (''airbus a321'', Narrowbody),
   (''airbus a220-300'', Narrowbody),
   (''airbus a220'', Narrowbody),
   (''a320'', Narrowbody),
   (''a321'', Narrowbody),
   (''a220-300'', Narrowbody),
   (''a220'', Narrowbody),
   (''dash 8-400'', Regional),
   (''dash 8'', Regional),
   (''dash-8'', Regional),
   (''q400'', Regional),
   (''embraer e195-e2'', Regional),
   (''embraer e195'', Regional),
   (''e195-e2'', Regional),
   (''e195'', Regional),
   (''embraer'', Regional),
   (''crj'', Regional),
   (''bombardier crj'', Regional),
   (''boeing 767-300f'', Cargo),
   (''boeing 767f'', Cargo),
   (''767-300f'', Cargo),
   (''767f'', Cargo),
   (''boeing 757-200f'', Cargo),
   (''boeing 757f'', Cargo),
   (''757-200f'', Cargo),
   (''757f'', Cargo),
   (''airbus a300-600f'', Cargo),
   (''airbus a300f'', Cargo),
   (''a300-600f'', Cargo),
   (''a300f'', Cargo)]"

fun CATEGORY_TO_CONSTRAINTS :: "aircraft_category \<Rightarrow> constraint_class" where
  "CATEGORY_TO_CONSTRAINTS Widebody = Jet"
| "CATEGORY_TO_CONSTRAINTS Narrowbody = Jet"
| "CATEGORY_TO_CONSTRAINTS Regional = Turboprop"
| "CATEGORY_TO_CONSTRAINTS Cargo = Jet"

text \<open>
  The loop \<open>for aircraft_name, category in KNOWN_AIRCRAFT.items()\<close>: the first entry, in
  the order of the table, whose key occurs in the descriptor.
\<close>

fun scan_known :: "(string \<times> aircraft_category) list \<Rightarrow> string \<Rightarrow> aircraft_category option" where
  "scan_known [] normalized = None"
| "scan_known ((aircraft_name, category) # rest) normalized =
     (if contains normalized aircraft_name then Some category else scan_known rest normalized)"

definition classify_aircraft :: "string \<Rightarrow> constraint_class \<times> bool" where
  "classify_aircraft plane_type =
     (let normalized = lower (strip plane_type) in
      if normalized = [] then (Jet, False)
      else (case scan_known KNOWN_AIRCRAFT normalized of
              Some category \<Rightarrow> (CATEGORY_TO_CONSTRAINTS category, True)
            | None \<Rightarrow>
                if contains normalized ''heli'' then (Helicopter, True)
                else if contains normalized ''turboprop''
                        \<or> (contains normalized ''turbo'' \<and> contains normalized ''prop'')
                     then (Turboprop, True)
                else if contains normalized ''prop'' \<or> contains normalized ''piston''
                     then (Prop, True)
                else if contains normalized ''jet'' then (Jet, True)
                else if contains normalized ''boeing'' \<or> contains normalized ''airbus''
                     then (Jet, True)
                else if startswith normalized ''b7'' \<or> startswith normalized ''a3''
                        \<or> startswith normalized ''a2''
                     then (Jet, True)
                else (Jet, False)))"

record FlightPlan =
  acid :: string
  plane_type :: string
  route :: string
  altitude_ft :: int
  departure_time :: int
  speed_kt :: int
  passengers :: int
  is_cargo :: bool
  departure_airport :: "string option"
  arrival_airport :: "string option"

text \<open>The issues \<open>validate_flight_plan\<close> reports, each with the data its message prints.\<close>

datatype issue =
    UnknownPlaneType string string constraint_class
  | SpeedOutside string int int int
  | AltitudeOutside string int int int

definition validate_flight_plan :: "FlightPlan \<Rightarrow> issue list" where
  "validate_flight_plan flight =
     (let (category, matched) = classify_aircraft (plane_type flight);
          constraints = AIRCRAFT_CONSTRAINTS category
      in (if \<not> matched then [UnknownPlaneType (acid flight) (plane_type flight) category] else [])
       @ (if speed_kt flight < min_speed_kt constraints \<or> speed_kt flight > max_speed_kt constraints
          then [SpeedOutside (acid flight) (speed_kt flight)
                  (min_speed_kt constraints) (max_speed_kt constraints)]
          else [])
       @ (if altitude_ft flight < min_altitude_ft constraints
             \<or> altitude_ft flight > max_altitude_ft constraints
          then [AltitudeOutside (acid flight) (altitude_ft flight)
                  (min_altitude_ft constraints) (max_altitude_ft constraints)]
          else []))"

record TrajectoryPoint =
  tp_acid :: string
  lat :: real
  lon :: real
  tp_altitude_ft :: int
  timestamp :: int
  tp_speed_kt :: "int option"

record ConflictEvent =
  flight_a :: string
  flight_b :: string
  start_time :: int
  end_time :: int
  min_horizontal_nm :: real
  min_vertical_ft :: int
  severity :: real

record HotspotCell =
  lat_bucket :: int
  lon_bucket :: int
  altitude_band :: int
  time_start :: int
  time_end :: int
  peak_density :: int
  occupancy_minutes :: int
  unique_flights :: int
  score :: real

text \<open>
  \<open>round(x, 4)\<close>: to the nearest multiple of \<open>1/10000\<close>, a tie going to the even
  multiple.
\<close>

definition round4 :: "real \<Rightarrow> real" where
  "round4 x =
     (let y = x * 10000; f = \<lfloor>y\<rfloor>; d = y - of_int f
      in of_int (if d < 1/2 then f else if 1/2 < d then f + 1
                 else if even f then f else f + 1) / 10000)"

section \<open>Geodesy and the trajectory builder (trajectory.py)\<close>

definition EARTH_RADIUS_NM :: real where
  "EARTH_RADIUS_NM = 3440.065"

definition radians :: "real \<Rightarrow> real" where
  "radians x = x * pi / 180"

definition great_circle_nm :: "real \<times> real \<Rightarrow> real \<times> real \<Rightarrow> real" where
  "great_circle_nm a b =
     (let lat1 = radians (fst a); lon1 = radians (snd a);
          lat2 = radians (fst b); lon2 = radians (snd b);
          dlat = lat2 - lat1;
          dlon = lon2 - lon1;
          sin_dlat = sin (dlat / 2);
          sin_dlon = sin (dlon / 2);
          h = sin_dlat * sin_dlat + cos lat1 * cos lat2 * sin_dlon * sin_dlon
      in 2 * EARTH_RADIUS_NM * arcsin (min 1 (sqrt h)))"

fun segment_distances :: "(real \<times> real) list \<Rightarrow> real list" where
  "segment_distances (p # q # ps) = great_circle_nm p q # segment_distances (q # ps)"
| "segment_distances ps = []"

definition interpolate :: "real \<times> real \<Rightarrow> real \<times> real \<Rightarrow> real \<Rightarrow> real \<times> real" where
  "interpolate a b t = (fst a + (fst b - fst a) * t, snd a + (snd b - snd a) * t)"

text \<open>
  The inner loop of \<open>build_trajectory\<close>: skip the segments that are used up. The state is
  (\<open>segment_index\<close>, \<open>segment_progress\<close>, \<open>segment_remaining\<close>).
\<close>

function advance_segment :: "real list \<Rightarrow> nat \<times> real \<times> real \<Rightarrow> nat \<times> real \<times> real" where
  "advance_segment distances (segment_index, segment_progress, segment_remaining) =
     (if segment_index < length distances \<and> segment_remaining \<le> 0
      then (if segment_index + 1 < length distances
            then advance_segment distances (segment_index + 1, 0, distances ! (segment_index + 1))
            else advance_segment distances (segment_index + 1, segment_progress, segment_remaining))
      else (segment_index, segment_progress, segment_remaining))"
  by pat_completeness auto
termination
  by (relation "measure (\<lambda>(distances, segment_index, _). length distances - segment_index)") auto

declare advance_segment.simps [simp del]

text \<open>
  The outer loop \<open>while elapsed <= total_sec\<close>, returning the points appended from
  \<open>elapsed\<close> on. It is only entered with \<open>sample_sec > 0\<close>; the guard on \<open>sample_sec\<close>
  in the equation is what makes the recursion terminate.
\<close>

function sample_loop ::
  "FlightPlan \<Rightarrow> (real \<times> real) list \<Rightarrow> real list \<Rightarrow> int \<Rightarrow> int \<Rightarrow> int
     \<Rightarrow> int \<Rightarrow> nat \<times> real \<times> real \<Rightarrow> TrajectoryPoint list" where
  "sample_loop flight points distances speed total_sec sample_sec elapsed st =
     (if elapsed \<le> total_sec \<and> 0 < sample_sec
      then (let (segment_index, segment_progress, segment_remaining) = advance_segment distances st;
                (plat, plon) =
                  (if segment_index \<ge> length distances then last points
                   else (let segment_len = max (1 / 1000000) (distances ! segment_index);
                             t = min 1 (segment_progress / segment_len)
                         in interpolate (points ! segment_index) (points ! (segment_index + 1)) t));
                point = \<lparr>tp_acid = acid flight, lat = plat, lon = plon,
                         tp_altitude_ft = altitude_ft flight,
                         timestamp = departure_time flight + elapsed,
                         tp_speed_kt = Some (speed_kt flight)\<rparr>;
                advance_nm = real_of_int (speed * sample_sec) / 3600
            in point # sample_loop flight points distances speed total_sec sample_sec
                         (elapsed + sample_sec)
                         (segment_index, segment_progress + advance_nm,
                          segment_remaining - advance_nm))
      else [])"
  by pat_completeness auto
termination
  by (relation "measure (\<lambda>(flight, points, distances, speed, total_sec, sample_sec, elapsed, st).
                   nat (total_sec - elapsed + 1))") auto

declare sample_loop.simps [simp del]

definition build_trajectory ::
  "FlightPlan \<Rightarrow> (real \<times> real) list \<Rightarrow> int \<Rightarrow> error + TrajectoryPoint list" where
  "build_trajectory flight points sample_sec =
     (if sample_sec \<le> 0 then Inl SampleSecNotPositive
      else (let distances = segment_distances points;
                total_nm = sum_list distances
            in if total_nm \<le> 0 then Inl RouteDistanceNotPositive
               else (let speed = max 1 (speed_kt flight);
                         total_sec = \<lceil>total_nm / real_of_int speed * 3600\<rceil>
                     in Inr (sample_loop flight points distances speed total_sec sample_sec 0
                               (0, 0, hd distances)))))"

section \<open>Conflict detector (conflicts.py)\<close>

definition HORIZONTAL_THRESHOLD_NM :: real where
  "HORIZONTAL_THRESHOLD_NM = 5"

definition VERTICAL_THRESHOLD_FT :: int where
  "VERTICAL_THRESHOLD_FT = 2000"

text \<open>
  \<open>d[k].append(v)\<close> on a \<open>defaultdict(list)\<close>: a new key goes to the end of the
  dictionary, a known key keeps its place.
\<close>

fun dict_append :: "'k \<Rightarrow> 'v \<Rightarrow> ('k \<times> 'v list) list \<Rightarrow> ('k \<times> 'v list) list" where
  "dict_append k v [] = [(k, [v])]"
| "dict_append k v ((k', vs) # kvs) =
     (if k = k' then (k', vs @ [v]) # kvs else (k', vs) # dict_append k v kvs)"

text \<open>\<open>d.get(k, [])\<close>.\<close>

definition dict_get :: "('k \<times> 'v list) list \<Rightarrow> 'k \<Rightarrow> 'v list" where
  "dict_get d k = (case map_of d k of None \<Rightarrow> [] | Some vs \<Rightarrow> vs)"

definition bucket_key :: "real \<Rightarrow> real \<Rightarrow> real \<Rightarrow> int \<times> int" where
  "bucket_key la lo bucket_deg = (\<lfloor>la / bucket_deg\<rfloor>, \<lfloor>lo / bucket_deg\<rfloor>)"

definition neighbor_keys :: "int \<times> int \<Rightarrow> (int \<times> int) list" where
  "neighbor_keys key =
     concat (map (\<lambda>dlat. map (\<lambda>dlon. (fst key + dlat, snd key + dlon)) [-1, 0, 1]) [-1, 0, 1])"

definition severity_of :: "real \<Rightarrow> int \<Rightarrow> real" where
  "severity_of horizontal_nm vertical_ft =
     (let horiz = max 0 ((HORIZONTAL_THRESHOLD_NM - horizontal_nm) / HORIZONTAL_THRESHOLD_NM);
          vert = max 0 (real_of_int (VERTICAL_THRESHOLD_FT - vertical_ft)
                        / real_of_int VERTICAL_THRESHOLD_FT)
      in round4 (horiz + vert))"

text \<open>\<open>tuple(sorted((x, y)))\<close> on two strings.\<close>

definition sorted_pair :: "string \<Rightarrow> string \<Rightarrow> string \<times> string" where
  "sorted_pair x y = (if y < x then (y, x) else (x, y))"

type_synonym hit = "int \<times> real \<times> int"

type_synonym raw_hits = "((string \<times> string) \<times> hit list) list"

type_synonym scan_state = "((string \<times> string) \<times> int) set \<times> raw_hits"

text \<open>
  The body of the innermost loop, for one \<open>point_a\<close> of a bucket and one \<open>point_b\<close> of
  its candidates. The state is (\<open>checked_pairs\<close>, \<open>raw_hits\<close>).
\<close>

definition scan_pair :: "TrajectoryPoint \<Rightarrow> scan_state \<Rightarrow> TrajectoryPoint \<Rightarrow> scan_state" where
  "scan_pair point_a st point_b =
     (let (checked_pairs, raw) = st in
      if tp_acid point_a = tp_acid point_b then st
      else (let pair = sorted_pair (tp_acid point_a) (tp_acid point_b);
                pair_key = (pair, timestamp point_a)
            in if pair_key \<in> checked_pairs then st
               else (let horizontal_nm = great_circle_nm (lat point_a, lon point_a)
                                                         (lat point_b, lon point_b);
                         vertical_ft = \<bar>tp_altitude_ft point_a - tp_altitude_ft point_b\<bar>
                     in (insert pair_key checked_pairs,
                         if horizontal_nm < HORIZONTAL_THRESHOLD_NM
                            \<and> vertical_ft < VERTICAL_THRESHOLD_FT
                         then dict_append pair (timestamp point_a, horizontal_nm, vertical_ft) raw
                         else raw))))"

type_synonym spatial_index = "((int \<times> int) \<times> TrajectoryPoint list) list"

text \<open>One bucket of a time bin: its points against the points of the 3 by 3 neighbourhood.\<close>

definition scan_bucket ::
  "spatial_index \<Rightarrow> scan_state \<Rightarrow> (int \<times> int) \<times> TrajectoryPoint list \<Rightarrow> scan_state" where
  "scan_bucket spatial st entry =
     (let candidates = concat (map (dict_get spatial) (neighbor_keys (fst entry)))
      in foldl (\<lambda>st point_a. foldl (scan_pair point_a) st candidates) st (snd entry))"

text \<open>One time bin: bucket its points, then scan every bucket with a fresh \<open>checked_pairs\<close>.\<close>

definition scan_bin :: "real \<Rightarrow> raw_hits \<Rightarrow> int \<times> TrajectoryPoint list \<Rightarrow> raw_hits" where
  "scan_bin bucket_deg raw entry =
     (let spatial = foldl (\<lambda>sp point. dict_append (bucket_key (lat point) (lon point) bucket_deg)
                                          point sp) [] (snd entry)
      in snd (foldl (scan_bucket spatial) ({}, raw) spatial))"

definition make_event :: "int \<Rightarrow> string \<times> string \<Rightarrow> int \<Rightarrow> int \<Rightarrow> real \<Rightarrow> int \<Rightarrow> ConflictEvent" where
  "make_event time_bin_sec pair start end' min_h min_v =
     \<lparr>flight_a = fst pair, flight_b = snd pair, start_time = start,
      end_time = end' + time_bin_sec, min_horizontal_nm = round4 min_h,
      min_vertical_ft = min_v, severity = severity_of min_h min_v\<rparr>"

text \<open>
  The coalescing loop over \<open>hits[1:]\<close>, with the event appended after the loop. The state
  is (\<open>start\<close>, \<open>end\<close>, \<open>min_h\<close>, \<open>min_v\<close>).
\<close>

fun coalesce_loop ::
  "int \<Rightarrow> string \<times> string \<Rightarrow> int \<times> int \<times> real \<times> int \<Rightarrow> hit list \<Rightarrow> ConflictEvent list" where
  "coalesce_loop time_bin_sec pair (start, end', min_h, min_v) [] =
     [make_event time_bin_sec pair start end' min_h min_v]"
| "coalesce_loop time_bin_sec pair (start, end', min_h, min_v) ((ts, horiz, vert) # hits) =
     (if ts \<le> end' + time_bin_sec
      then coalesce_loop time_bin_sec pair (start, ts, min min_h horiz, min min_v vert) hits
      else make_event time_bin_sec pair start end' min_h min_v
           # coalesce_loop time_bin_sec pair (ts, ts, horiz, vert) hits)"

text \<open>
  The events of one pair. A key of \<open>raw_hits\<close> is created by an append, so its list is
  never empty and \<open>hits[0]\<close> cannot fail; the empty case is there for totality only.
\<close>

definition coalesce :: "int \<Rightarrow> (string \<times> string) \<times> hit list \<Rightarrow> ConflictEvent list" where
  "coalesce time_bin_sec entry =
     (case sort_key fst (snd entry) of
        [] \<Rightarrow> []
      | (ts, horiz, vert) # hits \<Rightarrow>
          coalesce_loop time_bin_sec (fst entry) (ts, ts, horiz, vert) hits)"

definition collect_hits :: "TrajectoryPoint list list \<Rightarrow> int \<Rightarrow> real \<Rightarrow> raw_hits" where
  "collect_hits trajectories time_bin_sec bucket_deg =
     (let bins = foldl (\<lambda>bins point. dict_append (timestamp point div time_bin_sec) point bins)
                   [] (concat trajectories)
      in foldl (scan_bin bucket_deg) [] bins)"

text \<open>The list \<open>conflicts\<close> as it stands before the final sort.\<close>

definition conflicts_unsorted :: "TrajectoryPoint list list \<Rightarrow> int \<Rightarrow> real \<Rightarrow> ConflictEvent list" where
  "conflicts_unsorted trajectories time_bin_sec bucket_deg =
     concat (map (coalesce time_bin_sec) (collect_hits trajectories time_bin_sec bucket_deg))"

text \<open>
  \<open>detect_conflicts\<close> on the values of the trajectory dictionary, in its order (the keys
  are not read: every point carries its own \<open>acid\<close>). Dividing by a zero bin width or
  bucket width raises as soon as there is a point to place. The final sort is stable, and
  \<open>reverse=True\<close> keeps the order of equal keys.
\<close>

definition detect_conflicts ::
  "TrajectoryPoint list list \<Rightarrow> int \<Rightarrow> real \<Rightarrow> error + ConflictEvent list" where
  "detect_conflicts trajectories time_bin_sec bucket_deg =
     (if concat trajectories \<noteq> [] \<and> (time_bin_sec = 0 \<or> bucket_deg = 0)
      then Inl ZeroDivisionError
      else Inr (sort_key (\<lambda>c. - severity c)
                  (conflicts_unsorted trajectories time_bin_sec bucket_deg)))"

section \<open>Hotspot aggregator (hotspots.py)\<close>

record HotspotConfig =
  lat_bucket_deg :: real
  lon_bucket_deg :: real
  altitude_band_ft :: int
  time_bin_sec :: int
  top_n :: int

definition default_config :: HotspotConfig where
  "default_config =
     \<lparr>lat_bucket_deg = 1, lon_bucket_deg = 1, altitude_band_ft = 2000, time_bin_sec = 60,
      top_n = 10\<rparr>"

definition bucket :: "real \<Rightarrow> real \<Rightarrow> int" where
  "bucket v step = \<lfloor>v / step\<rfloor>"

text \<open>
  The per-cell dictionary \<open>{"peak_density", "time_bins", "flights"}\<close>; the two sets are
  lists without repetition, in the order of first insertion.
\<close>

record cell_stats =
  cs_peak_density :: int
  cs_time_bins :: "int list"
  cs_flights :: "string list"

definition empty_stats :: cell_stats where
  "empty_stats = \<lparr>cs_peak_density = 0, cs_time_bins = [], cs_flights = []\<rparr>"

text \<open>\<open>s.add(x)\<close> on a set kept as a list.\<close>

definition set_add :: "'a \<Rightarrow> 'a list \<Rightarrow> 'a list" where
  "set_add x xs = (if x \<in> set xs then xs else xs @ [x])"

text \<open>
  \<open>stats = cell_stats.setdefault(cell_key, fresh)\<close> followed by the three updates of
  \<open>stats\<close>, for one entry of \<open>occupancy\<close>.
\<close>

definition update_stats :: "int \<Rightarrow> TrajectoryPoint list \<Rightarrow> cell_stats \<Rightarrow> cell_stats" where
  "update_stats time_bin points stats =
     \<lparr>cs_peak_density = max (cs_peak_density stats) (int (length points)),
      cs_time_bins = set_add time_bin (cs_time_bins stats),
      cs_flights = foldl (\<lambda>fs p. set_add (tp_acid p) fs) (cs_flights stats) points\<rparr>"

fun stats_step ::
  "(int \<times> int \<times> int) \<Rightarrow> int \<Rightarrow> TrajectoryPoint list
     \<Rightarrow> ((int \<times> int \<times> int) \<times> cell_stats) list \<Rightarrow> ((int \<times> int \<times> int) \<times> cell_stats) list" where
  "stats_step cell_key time_bin points [] = [(cell_key, update_stats time_bin points empty_stats)]"
| "stats_step cell_key time_bin points ((k, stats) # rest) =
     (if k = cell_key then (k, update_stats time_bin points stats) # rest
      else (k, stats) # stats_step cell_key time_bin points rest)"

text \<open>\<open>int(a / b)\<close> on integers: the quotient, truncated towards zero.\<close>

definition int_trunc_div :: "int \<Rightarrow> int \<Rightarrow> int" where
  "int_trunc_div a b =
     (let q = real_of_int a / real_of_int b in if 0 \<le> q then \<lfloor>q\<rfloor> else \<lceil>q\<rceil>)"

definition make_cell :: "HotspotConfig \<Rightarrow> (int \<times> int \<times> int) \<times> cell_stats \<Rightarrow> HotspotCell list" where
  "make_cell config entry =
     (let (lat_b, lon_b, alt_b) = fst entry;
          stats = snd entry;
          time_bins = sort (cs_time_bins stats)
      in if time_bins = [] then []
         else (let occupancy_minutes' =
                     int (length time_bins) * int_trunc_div (time_bin_sec config) 60;
                   unique_flights' = int (length (cs_flights stats));
                   peak_density' = cs_peak_density stats
               in [\<lparr>lat_bucket = lat_b, lon_bucket = lon_b, altitude_band = alt_b,
                     time_start = hd time_bins * time_bin_sec config,
                     time_end = (last time_bins + 1) * time_bin_sec config,
                     peak_density = peak_density',
                     occupancy_minutes = occupancy_minutes',
                     unique_flights = unique_flights',
                     score = round4 (real_of_int peak_density' * (6 / 10)
                                     + real_of_int unique_flights' * (3 / 10)
                                     + real_of_int occupancy_minutes' * (1 / 10))\<rparr>]))"

text \<open>\<open>xs[:n]\<close>: a negative \<open>n\<close> drops that many elements from the end.\<close>

definition slice_to :: "int \<Rightarrow> 'a list \<Rightarrow> 'a list" where
  "slice_to n xs = (if 0 \<le> n then take (nat n) xs else take (length xs - nat (- n)) xs)"

definition occupancy_key :: "HotspotConfig \<Rightarrow> TrajectoryPoint \<Rightarrow> int \<times> int \<times> int \<times> int" where
  "occupancy_key config point =
     (bucket (lat point) (lat_bucket_deg config),
      bucket (lon point) (lon_bucket_deg config),
      bucket (real_of_int (tp_altitude_ft point)) (real_of_int (altitude_band_ft config)),
      timestamp point div time_bin_sec config)"

text \<open>The list \<open>hotspots\<close> before the sort.\<close>

definition hotspot_cells :: "TrajectoryPoint list list \<Rightarrow> HotspotConfig \<Rightarrow> HotspotCell list" where
  "hotspot_cells trajectories config =
     (let occupancy = foldl (\<lambda>occ point. dict_append (occupancy_key config point) point occ)
                        [] (concat trajectories);
          stats = foldl (\<lambda>cells ((lat_b, lon_b, alt_b, time_bin), points).
                           stats_step (lat_b, lon_b, alt_b) time_bin points cells)
                    [] occupancy
      in concat (map (make_cell config) stats))"

text \<open>
  \<open>detect_hotspots\<close> on the values of the trajectory dictionary. A zero step in the
  configuration raises at the first point.
\<close>

definition detect_hotspots ::
  "TrajectoryPoint list list \<Rightarrow> HotspotConfig \<Rightarrow> error + HotspotCell list" where
  "detect_hotspots trajectories config =
     (if concat trajectories \<noteq> []
         \<and> (lat_bucket_deg config = 0 \<or> lon_bucket_deg config = 0
            \<or> altitude_band_ft config = 0 \<or> time_bin_sec config = 0)
      then Inl ZeroDivisionError
      else Inr (slice_to (top_n config)
                  (sort_key (\<lambda>h. - score h) (hotspot_cells trajectories config))))"

section \<open>Candidate scoring and the resolver (scoring.py, resolver.py)\<close>

text \<open>The summary line of a candidate, kept as the data its text is formatted from.\<close>

datatype summary_text =
    ChangeAltitude int
  | ChangeSpeed int
  | ShiftDeparture int
  | InsertWaypoint

record ResolutionCandidate =
  flight_id :: string
  action_type :: string
  summary :: summary_text
  delta_altitude_ft :: "int option"
  delta_speed_kt :: "int option"
  delta_departure_min :: "int option"
  reroute_waypoint :: "string option"
  rc_score :: real
  benefit :: real
  cost :: real

record ScoreWeights =
  conflict_weight :: real
  delay_weight :: real
  altitude_weight :: real
  speed_weight :: real
  complexity_weight :: real

definition default_weights :: ScoreWeights where
  "default_weights =
     \<lparr>conflict_weight = 1, delay_weight = 4 / 100, altitude_weight = 2 / 1000,
      speed_weight = 1 / 100, complexity_weight = 2 / 10\<rparr>"

text \<open>\<open>abs(x or 0)\<close> on an optional integer.\<close>

definition abs_or_zero :: "int option \<Rightarrow> int" where
  "abs_or_zero x = (case x of None \<Rightarrow> 0 | Some v \<Rightarrow> \<bar>v\<bar>)"

text \<open>
  \<open>score_candidate\<close> writes three fields of the candidate it is given and returns it; the
  candidate is an object the resolver has just built, so the update is a record update.
\<close>

definition score_candidate ::
  "ResolutionCandidate \<Rightarrow> ConflictEvent \<Rightarrow> ScoreWeights \<Rightarrow> ResolutionCandidate" where
  "score_candidate candidate conflict weights =
     (let delay = abs_or_zero (delta_departure_min candidate);
          altitude = abs_or_zero (delta_altitude_ft candidate);
          speed = abs_or_zero (delta_speed_kt candidate);
          complexity = (case reroute_waypoint candidate of
                          None \<Rightarrow> 3 / 10
                        | Some w \<Rightarrow> if w = [] then 3 / 10 else 1);
          benefit' = round4 (severity conflict * conflict_weight weights);
          cost' = round4 (real_of_int delay * delay_weight weights
                          + real_of_int altitude * altitude_weight weights
                          + real_of_int speed * speed_weight weights
                          + complexity * complexity_weight weights)
      in candidate\<lparr>benefit := benefit', cost := cost', rc_score := round4 (benefit' - cost')\<rparr>)"

definition ALTITUDE_STEPS :: "int list" where
  "ALTITUDE_STEPS = [-4000, -2000, 2000, 4000]"

definition SPEED_STEPS :: "int list" where
  "SPEED_STEPS = [-25, -15, -10, 10, 15, 25]"

definition DEPARTURE_STEPS :: "int list" where
  "DEPARTURE_STEPS = [-10, -5, -2, 2, 5, 10]"

definition candidate ::
  "string \<Rightarrow> string \<Rightarrow> summary_text \<Rightarrow> int option \<Rightarrow> int option \<Rightarrow> int option
     \<Rightarrow> string option \<Rightarrow> ResolutionCandidate" where
  "candidate fid atype summ d_alt d_speed d_dep reroute =
     \<lparr>flight_id = fid, action_type = atype, summary = summ, delta_altitude_ft = d_alt,
      delta_speed_kt = d_speed, delta_departure_min = d_dep, reroute_waypoint = reroute,
      rc_score = 0, benefit = 0, cost = 0\<rparr>"

text \<open>
  Flight plans are objects, and the dictionary \<open>flights\<close> holds references to them. The
  store is the list of all flight-plan objects allocated so far; a reference is an index
  into it. \<open>flight.copy(update=...)\<close> allocates a new object at the end of the store and
  returns its reference.
\<close>

type_synonym store = "FlightPlan list"

definition copy_update :: "store \<Rightarrow> nat \<Rightarrow> int \<Rightarrow> int \<Rightarrow> nat \<times> store" where
  "copy_update h r new_altitude new_speed =
     (length h, h @ [(h ! r)\<lparr>altitude_ft := new_altitude, speed_kt := new_speed\<rparr>])"

definition valid_with_delta :: "store \<Rightarrow> nat \<Rightarrow> int \<Rightarrow> int \<Rightarrow> bool \<times> store" where
  "valid_with_delta h r delta_alt delta_speed =
     (let (updated, h') = copy_update h r (altitude_ft (h ! r) + delta_alt)
                            (speed_kt (h ! r) + delta_speed);
          issues = validate_flight_plan (h' ! updated)
      in (length issues = 0, h'))"

fun altitude_loop :: "store \<Rightarrow> nat \<Rightarrow> string \<Rightarrow> int list \<Rightarrow> ResolutionCandidate list \<times> store" where
  "altitude_loop h r fid [] = ([], h)"
| "altitude_loop h r fid (delta # deltas) =
     (let (ok, h1) = valid_with_delta h r delta 0;
          (rest, h2) = altitude_loop h1 r fid deltas
      in ((if ok then [candidate fid ''altitude'' (ChangeAltitude delta) (Some delta) None None None]
           else []) @ rest, h2))"

fun speed_loop :: "store \<Rightarrow> nat \<Rightarrow> string \<Rightarrow> int list \<Rightarrow> ResolutionCandidate list \<times> store" where
  "speed_loop h r fid [] = ([], h)"
| "speed_loop h r fid (delta # deltas) =
     (let (ok, h1) = valid_with_delta h r 0 delta;
          (rest, h2) = speed_loop h1 r fid deltas
      in ((if ok then [candidate fid ''speed'' (ChangeSpeed delta) None (Some delta) None None]
           else []) @ rest, h2))"

text \<open>The list \<open>candidates\<close> built for one flight of one conflict, before scoring.\<close>

definition build_candidates :: "store \<Rightarrow> nat \<Rightarrow> string \<Rightarrow> ResolutionCandidate list \<times> store" where
  "build_candidates h r fid =
     (let (alts, h1) = altitude_loop h r fid ALTITUDE_STEPS;
          (speeds, h2) = speed_loop h1 r fid SPEED_STEPS;
          deps = map (\<lambda>delta. candidate fid ''departure'' (ShiftDeparture delta)
                                 None None (Some delta) None) DEPARTURE_STEPS;
          reroutes = (if route (h2 ! r) \<noteq> []
                      then [candidate fid ''reroute'' InsertWaypoint None None None (Some ''FIX01'')]
                      else [])
      in (alts @ speeds @ deps @ reroutes, h2))"

type_synonym proposals = "string \<rightharpoonup> ResolutionCandidate list"

text \<open>One flight of one conflict: the body of the loop over \<open>(flight_a, flight_b)\<close>.\<close>

definition propose_side ::
  "(string \<rightharpoonup> nat) \<Rightarrow> ConflictEvent \<Rightarrow> proposals \<times> store \<Rightarrow> string \<Rightarrow> proposals \<times> store" where
  "propose_side flights conflict st fid =
     (let (props, h) = st in
      case flights fid of
        None \<Rightarrow> st
      | Some r \<Rightarrow>
          (let (candidates, h') = build_candidates h r fid;
               scored = map (\<lambda>c. score_candidate c conflict default_weights) candidates;
               scored = sort_key (\<lambda>c. - rc_score c) scored;
               key = flight_a conflict @ ''-'' @ flight_b conflict @ '':'' @ fid
           in (props(key \<mapsto> take 3 scored), h')))"

definition propose_resolutions ::
  "ConflictEvent list \<Rightarrow> (string \<rightharpoonup> nat) \<Rightarrow> store \<Rightarrow> proposals \<times> store" where
  "propose_resolutions conflicts flights h =
     foldl (\<lambda>st conflict. foldl (propose_side flights conflict) st
                             [flight_a conflict, flight_b conflict])
       (Map.empty, h) conflicts"

section \<open>Notions the properties are stated with\<close>

text \<open>
  The known-aircraft scan as the specification words it: the entries are visited from the
  longest key to the shortest.
\<close>

definition scan_longest_first :: "string \<Rightarrow> aircraft_category option" where
  "scan_longest_first normalized =
     scan_known (sort_key (\<lambda>entry. - int (length (fst entry))) KNOWN_AIRCRAFT) normalized"

text \<open>Whether the descriptor of a flight is recognised, and the band of its class.\<close>

definition recognised :: "FlightPlan \<Rightarrow> bool" where
  "recognised flight = snd (classify_aircraft (plane_type flight))"

definition constraints_of :: "FlightPlan \<Rightarrow> AircraftConstraints" where
  "constraints_of flight = AIRCRAFT_CONSTRAINTS (fst (classify_aircraft (plane_type flight)))"

definition altitude_in_band :: "FlightPlan \<Rightarrow> int \<Rightarrow> bool" where
  "altitude_in_band flight a =
     (min_altitude_ft (constraints_of flight) \<le> a \<and> a \<le> max_altitude_ft (constraints_of flight))"

definition speed_in_band :: "FlightPlan \<Rightarrow> int \<Rightarrow> bool" where
  "speed_in_band flight s =
     (min_speed_kt (constraints_of flight) \<le> s \<and> s \<le> max_speed_kt (constraints_of flight))"

text \<open>The deltas of the altitude candidates and of the speed candidates in a list.\<close>

definition emitted_altitude_deltas :: "ResolutionCandidate list \<Rightarrow> int option list" where
  "emitted_altitude_deltas cs =
     map delta_altitude_ft (filter (\<lambda>c. action_type c = ''altitude'') cs)"

definition emitted_speed_deltas :: "ResolutionCandidate list \<Rightarrow> int option list" where
  "emitted_speed_deltas cs = map delta_speed_kt (filter (\<lambda>c. action_type c = ''speed'') cs)"

text \<open>Two flights used as concrete inputs: a jet at 44 000 ft, and a jet filed too slow.\<close>

definition jet_44000 :: FlightPlan where
  "jet_44000 = \<lparr>acid = ''AC1'', plane_type = ''Boeing 737'', route = ''0N/0E 0N/2E'',
     altitude_ft = 44000, departure_time = 0, speed_kt = 360, passengers = 100,
     is_cargo = False, departure_airport = None, arrival_airport = None\<rparr>"

definition slow_jet :: FlightPlan where
  "slow_jet = \<lparr>acid = ''AC2'', plane_type = ''Boeing 737'', route = ''0N/0E 0N/2E'',
     altitude_ft = 30000, departure_time = 0, speed_kt = 180, passengers = 100,
     is_cargo = False, departure_airport = None, arrival_airport = None\<rparr>"

text \<open>A trajectory point, and two short trajectories that share a hotspot cell.\<close>

definition point_at :: "string \<Rightarrow> real \<Rightarrow> real \<Rightarrow> int \<Rightarrow> int \<Rightarrow> TrajectoryPoint" where
  "point_at a la lo al t =
     \<lparr>tp_acid = a, lat = la, lon = lo, tp_altitude_ft = al, timestamp = t, tp_speed_kt = Some 360\<rparr>"

definition hotspot_example :: "TrajectoryPoint list list" where
  "hotspot_example =
     [ [point_at ''A'' 43.5 (- 78.5) 30000 0, point_at ''A'' 43.5 (- 78.4) 30000 60,
       point_at ''A'' 43.5 (- 77.9) 30000 120],
      [point_at ''B'' 43.2 (- 78.1) 30500 0] ]"

text \<open>
  The total flight time \<open>total_sec\<close> that \<open>build_trajectory\<close> computes, and two routes
  along the equator: one degree of longitude, and a thousandth of a degree.
\<close>

definition total_flight_sec :: "FlightPlan \<Rightarrow> (real \<times> real) list \<Rightarrow> int" where
  "total_flight_sec flight points =
     \<lceil>sum_list (segment_distances points) / real_of_int (max 1 (speed_kt flight)) * 3600\<rceil>"

definition one_degree_route :: "(real \<times> real) list" where
  "one_degree_route = [(0, 0), (0, 1)]"

definition short_hop_route :: "(real \<times> real) list" where
  "short_hop_route = [(0, 0), (0, 1 / 1000)]"

text \<open>
  Invariants of the conflict detector: what holds of every recorded hit, of every entry of
  \<open>raw_hits\<close>, of \<open>raw_hits\<close> as a whole, and of every event built for a pair.
\<close>

definition hit_ok :: "hit \<Rightarrow> bool" where
  "hit_ok x = (fst (snd x) < HORIZONTAL_THRESHOLD_NM \<and> 0 \<le> snd (snd x)
               \<and> snd (snd x) < VERTICAL_THRESHOLD_FT)"

definition entry_ok :: "(string \<times> string) \<times> hit list \<Rightarrow> bool" where
  "entry_ok e = (fst (fst e) < snd (fst e) \<and> snd e \<noteq> [] \<and> list_all hit_ok (snd e))"

definition raw_ok :: "raw_hits \<Rightarrow> bool" where
  "raw_ok raw = (distinct (map fst raw) \<and> list_all entry_ok raw)"

definition event_ok :: "string \<times> string \<Rightarrow> ConflictEvent \<Rightarrow> bool" where
  "event_ok pair e =
     (flight_a e = fst pair \<and> flight_b e = snd pair \<and> start_time e \<le> end_time e
      \<and> min_horizontal_nm e \<le> 5 \<and> 0 \<le> min_vertical_ft e \<and> min_vertical_ft e < 2000)"

text \<open>
  Trajectories used as concrete inputs. Two flights that meet at time 0 and again at time
  600, the second time closer (\<open>twice_severe\<close>) or equally close (\<open>twice_equal\<close>); two
  flights 0.083277 degrees of longitude apart on the equator, just under 5 nm
  (\<open>near_miss\<close>); two flights at one place, 2000 ft apart (\<open>vertical_2000\<close>).
\<close>

definition twice_severe :: "TrajectoryPoint list list" where
  "twice_severe =
     [ [point_at ''A'' 0 0 30000 0, point_at ''A'' 0 0 30000 600],
      [point_at ''B'' 0 0 31000 0, point_at ''B'' 0 0 30000 600] ]"

definition twice_equal :: "TrajectoryPoint list list" where
  "twice_equal =
     [ [point_at ''A'' 0 0 30000 0, point_at ''A'' 0 0 30000 600],
      [point_at ''B'' 0 0 30000 0, point_at ''B'' 0 0 30000 600] ]"

definition near_miss :: "TrajectoryPoint list list" where
  "near_miss = [ [point_at ''A'' 0 0 30000 0], [point_at ''B'' 0 (83277 / 1000000) 30000 0] ]"

definition vertical_2000 :: "TrajectoryPoint list list" where
  "vertical_2000 = [ [point_at ''A'' 0 0 30000 0], [point_at ''B'' 0 0 32000 0] ]"

text \<open>
  Four single-point trajectories that fill three hotspot cells, the middle one twice, and
  two configurations: the two best cells, and a negative \<open>top_n\<close>.
\<close>

definition hotspot_three :: "TrajectoryPoint list list" where
  "hotspot_three =
     [ [point_at ''A'' 43.5 (- 78.5) 30000 0],
       [point_at ''B'' 44.5 (- 78.5) 30000 0],
       [point_at ''C'' 44.5 (- 78.5) 30000 0],
       [point_at ''D'' 45.5 (- 78.5) 30000 0] ]"

definition top_two_config :: HotspotConfig where
  "top_two_config = default_config\<lparr>top_n := 2\<rparr>"

definition negative_top_config :: HotspotConfig where
  "negative_top_config = default_config\<lparr>top_n := - 1\<rparr>"






section \<open>Properties of the route parser\<close>

lemma split_acc_all_space:
  "\<forall>c\<in>set s. is_space c \<Longrightarrow> split_acc w s = (if w = [] then [] else [w])"
  by (induction s arbitrary: w) auto

lemma strip_Nil_all_space: "strip s = [] \<Longrightarrow> \<forall>c\<in>set s. is_space c"
proof -
  assume a: "strip s = []"
  have "dropWhile is_space (rev (dropWhile is_space s)) = []"
    using a by (simp add: strip_def)
  then have all: "\<forall>c\<in>set (dropWhile is_space s). is_space c"
    by (simp add: dropWhile_eq_Nil_conv)
  have "dropWhile is_space s = []"
  proof (rule ccontr)
    assume ne: "dropWhile is_space s \<noteq> []"
    then have "\<not> is_space (hd (dropWhile is_space s))" by (rule hd_dropWhile)
    moreover have "hd (dropWhile is_space s) \<in> set (dropWhile is_space s)" using ne by simp
    ultimately show False using all by blast
  qed
  then show ?thesis by (simp add: dropWhile_eq_Nil_conv)
qed

lemma split_nonempty_strip: "split s = t # ts \<Longrightarrow> strip s \<noteq> []"
proof
  assume s: "split s = t # ts" and e: "strip s = []"
  from e have "\<forall>c\<in>set s. is_space c" by (rule strip_Nil_all_space)
  then have "split s = []" by (simp add: split_def split_acc_all_space)
  with s show False by simp
qed

lemma float_of_nonneg: "0 \<le> float_of s"
  by (simp add: float_of_def Let_def)

text \<open>
  Claim C9, as the code has it. \<open>parse_waypoint\<close> applies no range check: the pair it
  returns has the decimal value of the token's latitude degrees as \<open>|lat|\<close> and that of
  its longitude degrees as \<open>|lon|\<close>. So the latitude lies in \<open>[-90, 90]\<close> exactly when
  the token's latitude degrees are at most 90, and the longitude lies in \<open>[-180, 180]\<close>
  exactly when its longitude degrees are at most 180.
\<close>

theorem parse_waypoint_degrees:
  assumes "parse_waypoint token = Inr (la, lo)"
  shows "case WAYPOINT_RE_match (strip token) of
           None \<Rightarrow> False
         | Some (lat_deg, lat_dir, lon_deg, lon_dir) \<Rightarrow>
             \<bar>la\<bar> = float_of lat_deg \<and> \<bar>lo\<bar> = float_of lon_deg
             \<and> ((- 90 \<le> la \<and> la \<le> 90) = (float_of lat_deg \<le> 90))
             \<and> ((- 180 \<le> lo \<and> lo \<le> 180) = (float_of lon_deg \<le> 180))"
proof (cases "WAYPOINT_RE_match (strip token)")
  case None
  with assms show ?thesis by (simp add: parse_waypoint_def)
next
  case (Some g)
  obtain lat_deg lat_dir lon_deg lon_dir where g: "g = (lat_deg, lat_dir, lon_deg, lon_dir)"
    by (cases g) auto
  have la: "la = (if upper_char lat_dir = CHR ''S'' then - float_of lat_deg else float_of lat_deg)"
    and lo: "lo = (if upper_char lon_dir = CHR ''W'' then - float_of lon_deg else float_of lon_deg)"
    using assms Some g by (simp_all add: parse_waypoint_def Let_def)
  have n1: "0 \<le> float_of lat_deg" and n2: "0 \<le> float_of lon_deg"
    by (rule float_of_nonneg)+
  show ?thesis using Some g la lo n1 n2 by auto
qed

theorem parse_waypoint_degrees_witness:
  "parse_waypoint ''49.97N/110.935W'' = Inr (4997 / 100, - (22187 / 200))
   \<and> WAYPOINT_RE_match (strip ''49.97N/110.935W'') = Some (''49.97'', CHR ''N'', ''110.935'', CHR ''W'')
   \<and> \<bar>4997 / 100 :: real\<bar> = float_of ''49.97''
   \<and> \<bar>- (22187 / 200) :: real\<bar> = float_of ''110.935''
   \<and> float_of ''49.97'' \<le> 90 \<and> float_of ''110.935'' \<le> 180"
proof -
  have p: "parse_waypoint ''49.97N/110.935W'' = Inr (4997 / 100, - (22187 / 200))"
    by (simp add: parse_waypoint_def WAYPOINT_RE_match_def take_number_def strip_def
        is_space_def is_digit_def float_of_def nat_of_digits_def digit_val_def upper_char_def)
  have m: "WAYPOINT_RE_match (strip ''49.97N/110.935W'') = Some (''49.97'', CHR ''N'', ''110.935'', CHR ''W'')"
    by (simp add: WAYPOINT_RE_match_def take_number_def strip_def is_space_def is_digit_def)
  show ?thesis using parse_waypoint_degrees [OF p] p m
    by (simp add: float_of_def nat_of_digits_def digit_val_def)
qed

text \<open>
  The token \<open>91N/200W\<close> matches the pattern; the pair returned for it lies outside both
  ranges.
\<close>

theorem parse_waypoint_range_counterexample:
  "parse_waypoint ''91N/200W'' = Inr (91, - 200) \<and> \<not> (91::real) \<le> 90 \<and> \<not> - 180 \<le> (- 200 :: real)"
  by (simp add: parse_waypoint_def WAYPOINT_RE_match_def take_number_def strip_def
        is_space_def is_digit_def float_of_def nat_of_digits_def digit_val_def upper_char_def)

text \<open>
  Claim C7. \<open>parse_route\<close> on a route string that splits into exactly one token, a valid
  waypoint: departure, waypoint, arrival when both airport codes resolve; two points
  (departure, waypoint or waypoint, arrival) when exactly one resolves; an error when
  neither does.
\<close>

theorem parse_route_single_waypoint:
  assumes "split route_str = [token]" and "parse_waypoint token = Inr w"
  shows "parse_route route_str dep arr =
           (case (get_airport_coords dep, get_airport_coords arr) of
              (Some d, Some a) \<Rightarrow> Inr [d, w, a]
            | (Some d, None) \<Rightarrow> Inr [d, w]
            | (None, Some a) \<Rightarrow> Inr [w, a]
            | (None, None) \<Rightarrow> Inl RouteTooShort)"
proof -
  have "strip route_str \<noteq> []" using assms(1) by (rule split_nonempty_strip)
  then show ?thesis using assms by (simp add: parse_route_def)
qed

theorem parse_route_single_waypoint_witness:
  "split ''43.68N/79.62W'' = [''43.68N/79.62W'']
   \<and> parse_waypoint ''43.68N/79.62W'' = Inr (4368 / 100, - (7962 / 100))
   \<and> parse_route ''43.68N/79.62W'' (Some ''CYYZ'') (Some ''CYUL'')
       = Inr [(43.6777, - 79.6248), (4368 / 100, - (7962 / 100)), (45.4706, - 73.7408)]"
proof -
  have s: "split ''43.68N/79.62W'' = [''43.68N/79.62W'']"
    by (simp add: split_def is_space_def)
  have p: "parse_waypoint ''43.68N/79.62W'' = Inr (4368 / 100, - (7962 / 100))"
    by (simp add: parse_waypoint_def WAYPOINT_RE_match_def take_number_def strip_def
        is_space_def is_digit_def float_of_def nat_of_digits_def digit_val_def upper_char_def)
  have d: "get_airport_coords (Some ''CYYZ'') = Some (43.6777, - 79.6248)"
    by (simp add: get_airport_coords_def AIRPORT_COORDINATES_def upper_def upper_char_def
        strip_def is_space_def)
  have a: "get_airport_coords (Some ''CYUL'') = Some (45.4706, - 73.7408)"
    by (simp add: get_airport_coords_def AIRPORT_COORDINATES_def upper_def upper_char_def
        strip_def is_space_def)
  show ?thesis
    using parse_route_single_waypoint [OF s p, of "Some ''CYYZ''" "Some ''CYUL''"] s p d a
    by simp
qed


section \<open>Properties of the aircraft classifier\<close>

lemma scan_known_first:
  assumes "i < length table"
    and "contains normalized (fst (table ! i))"
    and "\<forall>j<i. \<not> contains normalized (fst (table ! j))"
  shows "scan_known table normalized = Some (snd (table ! i))"
  using assms
proof (induction table arbitrary: i)
  case Nil
  then show ?case by simp
next
  case (Cons e table)
  obtain k c where e: "e = (k, c)" by (cases e)
  show ?case
  proof (cases i)
    case 0
    with Cons.prems e show ?thesis by simp
  next
    case (Suc i')
    have nk: "\<not> contains normalized k"
      using Cons.prems(3) Suc e by (metis fst_conv nth_Cons_0 zero_less_Suc)
    have "\<forall>j<i'. \<not> contains normalized (fst (table ! j))"
      using Cons.prems(3) Suc by (metis Suc_less_eq nth_Cons_Suc)
    then have "scan_known table normalized = Some (snd (table ! i'))"
      using Cons.IH [of i'] Cons.prems(1,2) Suc by simp
    with nk e Suc show ?thesis by simp
  qed
qed

lemma classify_737: "classify_aircraft ''Boeing 737'' = (Jet, True)"
  by (simp add: classify_aircraft_def lower_def lower_char_def strip_def is_space_def
      KNOWN_AIRCRAFT_def startswith_def)

text \<open>
  Claim C4, as the code has it. The classifier scans the known-aircraft table in the order
  the table lists its keys: the first listed key that occurs in the normalized descriptor
  determines the category, whatever the lengths of the keys that occur in it.
\<close>

theorem classify_first_listed:
  assumes "i < length KNOWN_AIRCRAFT"
    and "lower (strip descriptor) \<noteq> []"
    and "contains (lower (strip descriptor)) (fst (KNOWN_AIRCRAFT ! i))"
    and "\<forall>j<i. \<not> contains (lower (strip descriptor)) (fst (KNOWN_AIRCRAFT ! j))"
  shows "classify_aircraft descriptor = (CATEGORY_TO_CONSTRAINTS (snd (KNOWN_AIRCRAFT ! i)), True)"
  using scan_known_first [OF assms(1,3,4)] assms(2)
  by (simp add: classify_aircraft_def Let_def)

theorem classify_first_listed_witness:
  "(13::nat) < length KNOWN_AIRCRAFT
   \<and> lower (strip ''Boeing 737'') = ''boeing 737''
   \<and> KNOWN_AIRCRAFT ! 13 = (''boeing 737'', Narrowbody)
   \<and> contains ''boeing 737'' ''boeing 737''
   \<and> classify_aircraft ''Boeing 737'' = (Jet, True)"
proof -
  have n: "lower (strip ''Boeing 737'') = ''boeing 737''"
    by (simp add: lower_def lower_char_def strip_def is_space_def)
  have l: "(13::nat) < length KNOWN_AIRCRAFT"
    by (simp add: KNOWN_AIRCRAFT_def)
  have e: "KNOWN_AIRCRAFT ! 13 = (''boeing 737'', Narrowbody)"
    by (simp add: KNOWN_AIRCRAFT_def)
  have c: "contains ''boeing 737'' ''boeing 737''"
    by (simp add: startswith_def)
  have a: "\<forall>j<(13::nat). \<not> contains ''boeing 737'' (fst (KNOWN_AIRCRAFT ! j))"
    by (simp add: KNOWN_AIRCRAFT_def startswith_def eval_nat_numeral less_Suc_eq)
  have "classify_aircraft ''Boeing 737'' = (CATEGORY_TO_CONSTRAINTS (snd (KNOWN_AIRCRAFT ! 13)), True)"
    using classify_first_listed [of 13 "''Boeing 737''"] l n e c a by simp
  then show ?thesis using n l e c by simp
qed

text \<open>
  The descriptor \<open>Embraer E195-E2 / Boeing 737\<close> contains the keys \<open>embraer e195-e2\<close>
  (15 characters, regional) and \<open>boeing 737\<close> (10 characters, narrow-body). The table
  lists \<open>boeing 737\<close> first, so the code answers narrow-body and the jet class; the scan
  from the longest key answers regional, whose class is turboprop.
\<close>

theorem classify_longest_first_counterexample:
  "lower (strip ''Embraer E195-E2 / Boeing 737'') = ''embraer e195-e2 / boeing 737''
   \<and> contains ''embraer e195-e2 / boeing 737'' ''embraer e195-e2''
   \<and> contains ''embraer e195-e2 / boeing 737'' ''boeing 737''
   \<and> scan_known KNOWN_AIRCRAFT ''embraer e195-e2 / boeing 737'' = Some Narrowbody
   \<and> classify_aircraft ''Embraer E195-E2 / Boeing 737'' = (Jet, True)
   \<and> scan_longest_first ''embraer e195-e2 / boeing 737'' = Some Regional
   \<and> CATEGORY_TO_CONSTRAINTS Regional = Turboprop"
proof -
  have n: "lower (strip ''Embraer E195-E2 / Boeing 737'') = ''embraer e195-e2 / boeing 737''"
    by (simp add: lower_def lower_char_def strip_def is_space_def)
  have s: "scan_known KNOWN_AIRCRAFT ''embraer e195-e2 / boeing 737'' = Some Narrowbody"
    by (simp add: KNOWN_AIRCRAFT_def startswith_def)
  have l: "scan_longest_first ''embraer e195-e2 / boeing 737'' = Some Regional"
    by (simp add: scan_longest_first_def KNOWN_AIRCRAFT_def startswith_def)
  have c: "classify_aircraft ''Embraer E195-E2 / Boeing 737'' = (Jet, True)"
    using n s by (simp add: classify_aircraft_def)
  show ?thesis using n s l c by (simp add: startswith_def)
qed

section \<open>Properties of the resolver\<close>

lemma validate_empty_iff:
  "(validate_flight_plan f = []) =
     (recognised f \<and> speed_in_band f (speed_kt f) \<and> altitude_in_band f (altitude_ft f))"
  by (cases "classify_aircraft (plane_type f)")
     (auto simp: validate_flight_plan_def recognised_def speed_in_band_def altitude_in_band_def
        constraints_of_def Let_def)

lemma valid_with_delta_eq:
  "valid_with_delta h r da ds =
     (recognised (h ! r) \<and> speed_in_band (h ! r) (speed_kt (h ! r) + ds)
        \<and> altitude_in_band (h ! r) (altitude_ft (h ! r) + da),
      h @ [(h ! r)\<lparr>altitude_ft := altitude_ft (h ! r) + da, speed_kt := speed_kt (h ! r) + ds\<rparr>])"
  by (simp add: valid_with_delta_def copy_update_def Let_def validate_empty_iff
      recognised_def speed_in_band_def altitude_in_band_def constraints_of_def)

lemma altitude_loop_eq:
  assumes "r < length h"
  shows "altitude_loop h r fid ds =
     (map (\<lambda>d. candidate fid ''altitude'' (ChangeAltitude d) (Some d) None None None)
        (filter (\<lambda>d. recognised (h ! r) \<and> speed_in_band (h ! r) (speed_kt (h ! r))
                      \<and> altitude_in_band (h ! r) (altitude_ft (h ! r) + d)) ds),
      h @ map (\<lambda>d. (h ! r)\<lparr>altitude_ft := altitude_ft (h ! r) + d,
                            speed_kt := speed_kt (h ! r) + 0\<rparr>) ds)"
  using assms
proof (induction ds arbitrary: h)
  case Nil
  then show ?case by simp
next
  case (Cons d ds)
  let ?h1 = "h @ [(h ! r)\<lparr>altitude_ft := altitude_ft (h ! r) + d, speed_kt := speed_kt (h ! r) + 0\<rparr>]"
  have r1: "r < length ?h1" using Cons.prems by simp
  have same: "?h1 ! r = h ! r" using Cons.prems by (simp add: nth_append)
  show ?case
    using Cons.IH [OF r1] same
    by (simp add: valid_with_delta_eq del: append_assoc)
qed

lemma speed_loop_eq:
  assumes "r < length h"
  shows "speed_loop h r fid ds =
     (map (\<lambda>d. candidate fid ''speed'' (ChangeSpeed d) None (Some d) None None)
        (filter (\<lambda>d. recognised (h ! r) \<and> speed_in_band (h ! r) (speed_kt (h ! r) + d)
                      \<and> altitude_in_band (h ! r) (altitude_ft (h ! r))) ds),
      h @ map (\<lambda>d. (h ! r)\<lparr>altitude_ft := altitude_ft (h ! r) + 0,
                            speed_kt := speed_kt (h ! r) + d\<rparr>) ds)"
  using assms
proof (induction ds arbitrary: h)
  case Nil
  then show ?case by simp
next
  case (Cons d ds)
  let ?h1 = "h @ [(h ! r)\<lparr>altitude_ft := altitude_ft (h ! r) + 0, speed_kt := speed_kt (h ! r) + d\<rparr>]"
  have r1: "r < length ?h1" using Cons.prems by simp
  have same: "?h1 ! r = h ! r" using Cons.prems by (simp add: nth_append)
  show ?case
    using Cons.IH [OF r1] same
    by (simp add: valid_with_delta_eq del: append_assoc)
qed

lemma build_candidates_altitude:
  assumes "r < length h"
  shows "emitted_altitude_deltas (fst (build_candidates h r fid)) =
           map Some (filter (\<lambda>d. recognised (h ! r) \<and> speed_in_band (h ! r) (speed_kt (h ! r))
                      \<and> altitude_in_band (h ! r) (altitude_ft (h ! r) + d)) ALTITUDE_STEPS)"
  using assms
  by (simp add: build_candidates_def altitude_loop_eq speed_loop_eq Let_def nth_append
      emitted_altitude_deltas_def candidate_def filter_map comp_def)

lemma build_candidates_speed:
  assumes "r < length h"
  shows "emitted_speed_deltas (fst (build_candidates h r fid)) =
           map Some (filter (\<lambda>d. recognised (h ! r) \<and> speed_in_band (h ! r) (speed_kt (h ! r) + d)
                      \<and> altitude_in_band (h ! r) (altitude_ft (h ! r))) SPEED_STEPS)"
  using assms
  by (simp add: build_candidates_def altitude_loop_eq speed_loop_eq Let_def nth_append
      emitted_speed_deltas_def candidate_def filter_map comp_def)

text \<open>
  Claim C3, as the code has it. A delta is checked by validating a copy of the whole
  flight plan. For a flight whose plane type is recognised, the candidate list built for
  it (before scoring and the cut to the best three) holds an altitude candidate for a step
  \<open>d\<close> exactly when the unchanged speed lies within the band and the altitude plus \<open>d\<close>
  lies within the band; and a speed candidate for \<open>d\<close> exactly when the unchanged altitude
  lies within the band and the speed plus \<open>d\<close> lies within the band.
\<close>

theorem build_candidates_filter:
  assumes "r < length h" and "recognised (h ! r)"
  shows "emitted_altitude_deltas (fst (build_candidates h r fid)) =
           (if speed_in_band (h ! r) (speed_kt (h ! r))
            then map Some (filter (\<lambda>d. altitude_in_band (h ! r) (altitude_ft (h ! r) + d))
                             ALTITUDE_STEPS)
            else [])
       \<and> emitted_speed_deltas (fst (build_candidates h r fid)) =
           (if altitude_in_band (h ! r) (altitude_ft (h ! r))
            then map Some (filter (\<lambda>d. speed_in_band (h ! r) (speed_kt (h ! r) + d))
                             SPEED_STEPS)
            else [])"
  using build_candidates_altitude [OF assms(1), of fid]
    build_candidates_speed [OF assms(1), of fid] assms(2)
  by (cases "speed_in_band (h ! r) (speed_kt (h ! r))";
      cases "altitude_in_band (h ! r) (altitude_ft (h ! r))"; simp)

theorem build_candidates_filter_witness:
  "(0::nat) < length [jet_44000]
   \<and> recognised ([jet_44000] ! 0)
   \<and> emitted_altitude_deltas (fst (build_candidates [jet_44000] 0 ''AC1''))
       = [Some (- 4000), Some (- 2000)]
   \<and> emitted_speed_deltas (fst (build_candidates [jet_44000] 0 ''AC1''))
       = [Some (- 25), Some (- 15), Some (- 10), Some 10, Some 15, Some 25]"
proof -
  have r: "recognised ([jet_44000] ! 0)"
    by (simp add: jet_44000_def recognised_def classify_737)
  show ?thesis
    using build_candidates_filter [of 0 "[jet_44000]" "''AC1''"] r
    by (simp add: jet_44000_def speed_in_band_def altitude_in_band_def
        constraints_of_def classify_737 ALTITUDE_STEPS_def SPEED_STEPS_def)
qed

text \<open>
  A jet of a recognised type filed at 180 kt, below the band of its class, at 30 000 ft:
  the altitude 32 000 ft lies within the band, and no altitude candidate is built.
\<close>

theorem altitude_candidate_counterexample:
  "recognised slow_jet
   \<and> 2000 \<in> set ALTITUDE_STEPS
   \<and> altitude_in_band slow_jet (altitude_ft slow_jet + 2000)
   \<and> emitted_altitude_deltas (fst (build_candidates [slow_jet] 0 ''AC2'')) = []"
  using build_candidates_altitude [of 0 "[slow_jet]" "''AC2''"]
  by (simp add: slow_jet_def recognised_def speed_in_band_def altitude_in_band_def
      constraints_of_def classify_737 ALTITUDE_STEPS_def)

lemma altitude_loop_store: "\<exists>ys. snd (altitude_loop h r fid ds) = h @ ys"
proof (induction ds arbitrary: h)
  case Nil
  then show ?case by simp
next
  case (Cons d ds)
  obtain ys where "snd (altitude_loop (snd (valid_with_delta h r d 0)) r fid ds)
                     = snd (valid_with_delta h r d 0) @ ys"
    using Cons.IH by blast
  then show ?case
    by (simp add: valid_with_delta_eq split_beta)
qed

lemma speed_loop_store: "\<exists>ys. snd (speed_loop h r fid ds) = h @ ys"
proof (induction ds arbitrary: h)
  case Nil
  then show ?case by simp
next
  case (Cons d ds)
  obtain ys where "snd (speed_loop (snd (valid_with_delta h r 0 d)) r fid ds)
                     = snd (valid_with_delta h r 0 d) @ ys"
    using Cons.IH by blast
  then show ?case
    by (simp add: valid_with_delta_eq split_beta)
qed

lemma build_candidates_store: "\<exists>ys. snd (build_candidates h r fid) = h @ ys"
proof -
  obtain ys where a: "snd (altitude_loop h r fid ALTITUDE_STEPS) = h @ ys"
    using altitude_loop_store by blast
  obtain zs where s: "snd (speed_loop (h @ ys) r fid SPEED_STEPS) = (h @ ys) @ zs"
    using speed_loop_store by blast
  show ?thesis using a s by (simp add: build_candidates_def split_beta Let_def)
qed

lemma propose_side_store: "\<exists>ys. snd (propose_side flights conflict (props, h) fid) = h @ ys"
proof (cases "flights fid")
  case None
  then show ?thesis by (simp add: propose_side_def)
next
  case (Some r)
  obtain ys where "snd (build_candidates h r fid) = h @ ys"
    using build_candidates_store by blast
  with Some show ?thesis by (simp add: propose_side_def split_beta Let_def)
qed

lemma propose_sides_store:
  "\<exists>ys. snd (foldl (propose_side flights conflict) (props, h) fids) = h @ ys"
proof (induction fids arbitrary: props h)
  case Nil
  then show ?case by simp
next
  case (Cons fid fids)
  obtain props1 h1 where st: "propose_side flights conflict (props, h) fid = (props1, h1)"
    by (cases "propose_side flights conflict (props, h) fid")
  obtain ys where y: "h1 = h @ ys" using propose_side_store [of flights conflict props h fid] st by auto
  obtain zs where "snd (foldl (propose_side flights conflict) (props1, h1) fids) = h1 @ zs"
    using Cons.IH by blast
  with st y show ?case by simp
qed

lemma propose_conflicts_store:
  "\<exists>ys. snd (foldl (\<lambda>st conflict. foldl (propose_side flights conflict) st
                             [flight_a conflict, flight_b conflict]) (props, h) conflicts) = h @ ys"
proof (induction conflicts arbitrary: props h)
  case Nil
  then show ?case by simp
next
  case (Cons c cs)
  let ?st = "foldl (propose_side flights c) (props, h) [flight_a c, flight_b c]"
  obtain props1 h1 where st: "?st = (props1, h1)" by (cases ?st)
  obtain ys where y: "h1 = h @ ys" using propose_sides_store [of flights c props h "[flight_a c, flight_b c]"] st by auto
  obtain zs where "snd (foldl (\<lambda>st conflict. foldl (propose_side flights conflict) st
                             [flight_a conflict, flight_b conflict]) (props1, h1) cs) = h1 @ zs"
    using Cons.IH by blast
  with st y show ?case by (simp del: foldl_Cons add: foldl_Cons [of _ _ c cs])
qed

text \<open>
  Claim C10. \<open>propose_resolutions\<close> writes to no flight plan it is given: every object of
  the store before the call, so every flight plan the dictionary \<open>flights\<close> refers to, is
  in the store after the call at the same reference with the same fields (altitude, speed,
  route, departure time and the rest). The copies that \<open>_valid_with_delta\<close> validates are
  new objects after the old ones.
\<close>

theorem propose_resolutions_frame:
  "take (length h) (snd (propose_resolutions conflicts flights h)) = h"
proof -
  obtain ys where "snd (propose_resolutions conflicts flights h) = h @ ys"
    unfolding propose_resolutions_def using propose_conflicts_store by blast
  then show ?thesis by simp
qed

section \<open>Properties of the hotspot aggregator\<close>

lemma make_cell_score:
  "c \<in> set (make_cell config entry) \<Longrightarrow>
     score c = round4 (real_of_int (peak_density c) * (6 / 10)
                       + real_of_int (unique_flights c) * (3 / 10)
                       + real_of_int (occupancy_minutes c) * (1 / 10))"
  by (auto simp: make_cell_def Let_def split_beta split: if_splits)

lemma hotspot_cells_score:
  "c \<in> set (hotspot_cells trajectories config) \<Longrightarrow>
     score c = round4 (real_of_int (peak_density c) * (6 / 10)
                       + real_of_int (unique_flights c) * (3 / 10)
                       + real_of_int (occupancy_minutes c) * (1 / 10))"
  by (auto simp: hotspot_cells_def Let_def dest: make_cell_score)

lemma set_slice_to: "set (slice_to n xs) \<subseteq> set xs"
  by (auto simp: slice_to_def dest: in_set_takeD)

lemma length_slice_to: "0 \<le> n \<Longrightarrow> length (slice_to n xs) \<le> nat n"
  by (simp add: slice_to_def)

lemma sorted_desc_sort_key:
  "sorted_wrt (\<lambda>a b. f b \<le> (f a :: real)) (sort_key (\<lambda>x. - f x) xs)"
proof -
  have "sorted (map (\<lambda>x. - f x) (sort_key (\<lambda>x. - f x) xs))" by (rule sorted_sort_key)
  then show ?thesis by (simp add: sorted_map)
qed

lemma sorted_wrt_slice_to: "sorted_wrt P xs \<Longrightarrow> sorted_wrt P (slice_to n xs)"
  by (simp add: slice_to_def sorted_wrt_take)

text \<open>
  Claim C8, as the code has it. For a \<open>top_n\<close> that is not negative (10 by default),
  \<open>detect_hotspots\<close> returns \<open>min(top_n, number of cells)\<close> of the cells it has
  computed, in order of descending score, no cell left out scoring higher than a cell
  returned; and the score of each cell is
  \<open>round(0.6 * peak_density + 0.3 * unique_flights + 0.1 * occupancy_minutes, 4)\<close>.
\<close>

theorem detect_hotspots_top_cells:
  assumes "detect_hotspots trajectories config = Inr cells" and "0 \<le> top_n config"
  shows "length cells = min (nat (top_n config)) (length (hotspot_cells trajectories config))
       \<and> mset cells \<subseteq># mset (hotspot_cells trajectories config)
       \<and> sorted_wrt (\<lambda>a b. score b \<le> score a) cells
       \<and> (\<forall>c\<in>#(mset (hotspot_cells trajectories config) - mset cells).
             \<forall>r\<in>set cells. score c \<le> score r)
       \<and> list_all (\<lambda>c. score c = round4 (real_of_int (peak_density c) * (6 / 10)
                                          + real_of_int (unique_flights c) * (3 / 10)
                                          + real_of_int (occupancy_minutes c) * (1 / 10))) cells"
proof -
  define computed where "computed = hotspot_cells trajectories config"
  define ranked where "ranked = sort_key (\<lambda>h. - score h) computed"
  define n where "n = nat (top_n config)"
  have cells: "cells = take n ranked"
    using assms by (simp add: detect_hotspots_def slice_to_def computed_def ranked_def n_def
        split: if_splits)
  have split: "ranked = cells @ drop n ranked" by (simp add: cells)
  have ms: "mset computed = mset cells + mset (drop n ranked)"
  proof -
    have "mset computed = mset ranked" by (simp add: ranked_def)
    also have "\<dots> = mset (cells @ drop n ranked)" using split by simp
    finally show ?thesis by simp
  qed
  have len: "length cells = min n (length computed)"
    by (simp add: cells ranked_def min.commute)
  have sub: "mset cells \<subseteq># mset computed" by (simp add: ms)
  have rest: "mset computed - mset cells = mset (drop n ranked)" by (simp add: ms)
  have rk: "sorted_wrt (\<lambda>a b. score b \<le> score a) ranked"
    unfolding ranked_def by (rule sorted_desc_sort_key)
  then have rk2: "sorted_wrt (\<lambda>a b. score b \<le> score a) (cells @ drop n ranked)"
    using split by simp
  have srt: "sorted_wrt (\<lambda>a b. score b \<le> score a) cells"
    using rk2 by (simp add: sorted_wrt_append)
  have cut: "\<forall>c\<in>#(mset computed - mset cells). \<forall>r\<in>set cells. score c \<le> score r"
    unfolding rest using rk2 by (auto simp: sorted_wrt_append)
  have "set cells \<subseteq> set computed" using set_mset_mono [OF sub] by simp
  then have sc: "list_all (\<lambda>c. score c = round4 (real_of_int (peak_density c) * (6 / 10)
                                          + real_of_int (unique_flights c) * (3 / 10)
                                          + real_of_int (occupancy_minutes c) * (1 / 10))) cells"
    unfolding list_all_iff computed_def using hotspot_cells_score by blast
  show ?thesis
    using len sub srt cut sc by (simp add: computed_def n_def)
qed

lemma hotspot_three_cells:
  "hotspot_cells hotspot_three top_two_config =
    [\<lparr>lat_bucket = 43, lon_bucket = - 79, altitude_band = 15, time_start = 0,
      time_end = 60, peak_density = 1, occupancy_minutes = 1,
      unique_flights = 1, score = 1\<rparr>,
     \<lparr>lat_bucket = 44, lon_bucket = - 79, altitude_band = 15, time_start = 0,
      time_end = 60, peak_density = 2, occupancy_minutes = 1,
      unique_flights = 2, score = 19 / 10\<rparr>,
     \<lparr>lat_bucket = 45, lon_bucket = - 79, altitude_band = 15, time_start = 0,
      time_end = 60, peak_density = 1, occupancy_minutes = 1,
      unique_flights = 1, score = 1\<rparr>]"
  by (simp add: hotspot_cells_def hotspot_three_def point_at_def top_two_config_def
      default_config_def occupancy_key_def bucket_def make_cell_def update_stats_def
      empty_stats_def set_add_def int_trunc_div_def round4_def Let_def)

lemma hotspot_three_top_two:
  "detect_hotspots hotspot_three top_two_config =
     Inr [\<lparr>lat_bucket = 44, lon_bucket = - 79, altitude_band = 15, time_start = 0,
           time_end = 60, peak_density = 2, occupancy_minutes = 1,
           unique_flights = 2, score = 19 / 10\<rparr>,
          \<lparr>lat_bucket = 43, lon_bucket = - 79, altitude_band = 15, time_start = 0,
           time_end = 60, peak_density = 1, occupancy_minutes = 1,
           unique_flights = 1, score = 1\<rparr>]"
  by (simp add: detect_hotspots_def hotspot_three_cells slice_to_def)
     (simp add: top_two_config_def default_config_def hotspot_three_def)

theorem detect_hotspots_top_cells_witness:
  "detect_hotspots hotspot_three top_two_config =
     Inr [\<lparr>lat_bucket = 44, lon_bucket = - 79, altitude_band = 15, time_start = 0,
           time_end = 60, peak_density = 2, occupancy_minutes = 1,
           unique_flights = 2, score = 19 / 10\<rparr>,
          \<lparr>lat_bucket = 43, lon_bucket = - 79, altitude_band = 15, time_start = 0,
           time_end = 60, peak_density = 1, occupancy_minutes = 1,
           unique_flights = 1, score = 1\<rparr>]
   \<and> 0 \<le> top_n top_two_config
   \<and> length (hotspot_cells hotspot_three top_two_config) = 3
   \<and> min (nat (top_n top_two_config)) (length (hotspot_cells hotspot_three top_two_config)) = 2
   \<and> round4 (real_of_int 2 * (6 / 10) + real_of_int 2 * (3 / 10) + real_of_int 1 * (1 / 10)) = 19 / 10"
proof -
  have t: "0 \<le> top_n top_two_config" by (simp add: top_two_config_def)
  show ?thesis
    using detect_hotspots_top_cells [OF hotspot_three_top_two t] hotspot_three_top_two t
    by (simp add: hotspot_three_cells)
qed

text \<open>
  With \<open>top_n = -1\<close> the slice drops the last cell only: of two cells one is returned,
  which is more than \<open>top_n\<close>.
\<close>

theorem detect_hotspots_negative_top_counterexample:
  "top_n negative_top_config = - 1
   \<and> detect_hotspots hotspot_example negative_top_config =
       Inr [\<lparr>lat_bucket = 43, lon_bucket = - 79, altitude_band = 15,
             time_start = 0, time_end = 120, peak_density = 2,
             occupancy_minutes = 2, unique_flights = 2, score = 2\<rparr>]"
proof -
  have c: "hotspot_cells hotspot_example negative_top_config =
    [\<lparr>lat_bucket = 43, lon_bucket = - 79, altitude_band = 15,
      time_start = 0, time_end = 120, peak_density = 2,
      occupancy_minutes = 2, unique_flights = 2, score = 2\<rparr>,
     \<lparr>lat_bucket = 43, lon_bucket = - 78, altitude_band = 15,
      time_start = 120, time_end = 180, peak_density = 1,
      occupancy_minutes = 1, unique_flights = 1, score = 1\<rparr>]"
    by (simp add: hotspot_cells_def hotspot_example_def point_at_def negative_top_config_def
        default_config_def occupancy_key_def bucket_def make_cell_def update_stats_def
        empty_stats_def set_add_def int_trunc_div_def round4_def Let_def)
  have t: "top_n negative_top_config = - 1"
    by (simp add: negative_top_config_def)
  have z: "lat_bucket_deg negative_top_config \<noteq> 0" "lon_bucket_deg negative_top_config \<noteq> 0"
    "altitude_band_ft negative_top_config \<noteq> 0" "time_bin_sec negative_top_config \<noteq> 0"
    by (simp_all add: negative_top_config_def default_config_def)
  show ?thesis
    using t z by (simp add: detect_hotspots_def c slice_to_def)
qed

section \<open>Properties of the geodesy primitives and the trajectory builder\<close>

lemma great_circle_equator:
  assumes "0 \<le> d" and "d \<le> 180"
  shows "great_circle_nm (0, a) (0, a + d) = EARTH_RADIUS_NM * d * pi / 180"
proof -
  let ?x = "d * pi / 360"
  have x0: "0 \<le> ?x" using assms(1) by simp
  have "d * pi \<le> 180 * pi" using assms(2) by simp
  then have x1: "?x \<le> pi / 2" by simp
  have s0: "0 \<le> sin ?x" using x0 x1 by (intro sin_ge_zero) (auto intro: order_trans [OF x1])
  have s1: "sin ?x \<le> 1" by simp
  have dl: "((a + d) * pi / 180 - a * pi / 180) / 2 = ?x" by (simp add: field_simps)
  have "great_circle_nm (0, a) (0, a + d) = 2 * EARTH_RADIUS_NM * arcsin (min 1 (sqrt (sin ?x * sin ?x)))"
    by (simp add: great_circle_nm_def Let_def radians_def dl)
  also have "sqrt (sin ?x * sin ?x) = sin ?x" using s0 by simp
  also have "min 1 (sin ?x) = sin ?x" using s1 by simp
  also have "arcsin (sin ?x) = ?x"
  proof (rule arcsin_sin)
    have "- (pi / 2) \<le> 0" by simp
    then show "- (pi / 2) \<le> ?x" using x0 by (rule order_trans)
    show "?x \<le> pi / 2" by (rule x1)
  qed
  finally show ?thesis by simp
qed

lemma sample_loop_length:
  "0 < sample_sec \<Longrightarrow>
   length (sample_loop flight points distances speed total_sec sample_sec elapsed st) =
     (if elapsed \<le> total_sec then nat ((total_sec - elapsed) div sample_sec) + 1 else 0)"
proof (induction flight points distances speed total_sec sample_sec elapsed st
       rule: sample_loop.induct)
  case (1 flight points distances speed total_sec sample_sec elapsed st)
  show ?case
  proof (cases "elapsed \<le> total_sec")
    case False
    then show ?thesis by (subst sample_loop.simps) simp
  next
    case True
    obtain si sp sr where adv: "advance_segment distances st = (si, sp, sr)"
      by (cases "advance_segment distances st")
    let ?pt = "(if si \<ge> length distances then last points
                   else (let segment_len = max (1 / 1000000) (distances ! si);
                             t = min 1 (sp / segment_len)
                         in interpolate (points ! si) (points ! (si + 1)) t))"
    obtain plat plon where pt: "?pt = (plat, plon)" by (cases ?pt)
    have IH: "length (sample_loop flight points distances speed total_sec sample_sec
                 (elapsed + sample_sec)
                 (si, sp + real_of_int (speed * sample_sec) / 3600,
                  sr - real_of_int (speed * sample_sec) / 3600)) =
              (if elapsed + sample_sec \<le> total_sec
               then nat ((total_sec - (elapsed + sample_sec)) div sample_sec) + 1 else 0)"
      using "1.IH" [OF _ adv [symmetric] refl refl pt [symmetric] refl refl refl] True "1.prems" 
      by simp
    have step: "length (sample_loop flight points distances speed total_sec sample_sec elapsed st)
          = Suc (length (sample_loop flight points distances speed total_sec sample_sec
                 (elapsed + sample_sec)
                 (si, sp + real_of_int (speed * sample_sec) / 3600,
                  sr - real_of_int (speed * sample_sec) / 3600)))"
      using True "1.prems" adv pt
      by (subst sample_loop.simps) (simp add: Let_def)
    show ?thesis
    proof (cases "elapsed + sample_sec \<le> total_sec")
      case T2: True
      have "(total_sec - elapsed) div sample_sec = (total_sec - (elapsed + sample_sec)) div sample_sec + 1"
      proof -
        define x where "x = total_sec - (elapsed + sample_sec)"
        have e: "total_sec - elapsed = x + sample_sec" by (simp add: x_def)
        have "(x + sample_sec) div sample_sec = x div sample_sec + 1"
          using "1.prems" by (simp add: div_add_self2)
        then show ?thesis unfolding e by (simp only: x_def)
      qed
      moreover have "0 \<le> (total_sec - (elapsed + sample_sec)) div sample_sec"
        using T2 "1.prems" by (simp add: pos_imp_zdiv_nonneg_iff)
      ultimately show ?thesis using step IH T2 True by (simp add: nat_add_distrib)
    next
      case F2: False
      then have "(total_sec - elapsed) div sample_sec = 0"
        using True "1.prems" by (simp add: div_pos_pos_trivial)
      then show ?thesis using step IH F2 True by simp
    qed
  qed
qed


lemma sum_lessThan_14:
  fixes f :: "nat \<Rightarrow> real"
  shows "(\<Sum>m<14. f m) = f 0 + f 1 + f 2 + f 3 + f 4 + f 5 + f 6 + f 7 + f 8 + f 9 + f 10
                           + f 11 + f 12 + f 13"
  by (simp add: eval_nat_numeral lessThan_Suc)

lemma cos_poly_14:
  "(\<Sum>m<14. cos_coeff m * (x::real) ^ m) =
     1 - x^2 / 2 + x^4 / 24 - x^6 / 720 + x^8 / 40320 - x^10 / 3628800 + x^12 / 479001600"
  unfolding sum_lessThan_14 by (simp add: cos_coeff_def fact_numeral)

lemma cos_bounds_14:
  fixes x :: real
  assumes "0 < x"
  shows "1 - x^2 / 2 + x^4 / 24 - x^6 / 720 + x^8 / 40320 - x^10 / 3628800 + x^12 / 479001600
           - x^14 / 87178291200 \<le> cos x"
    and "cos x \<le> 1 - x^2 / 2 + x^4 / 24 - x^6 / 720 + x^8 / 40320 - x^10 / 3628800
           + x^12 / 479001600 + x^14 / 87178291200"
proof -
  obtain t where t: "cos x = (\<Sum>m<14. cos_coeff m * x ^ m) + (cos (t + 1/2 * real 14 * pi) / fact 14) * x ^ 14"
    using Maclaurin_cos_expansion2 [OF assms, of 14] by auto
  let ?c = "cos (t + 1/2 * real 14 * pi)"
  have f: "(fact 14 :: real) = 87178291200" by (simp add: fact_numeral)
  have c1: "?c \<le> 1" and c2: "- 1 \<le> ?c" by (rule cos_le_one, rule cos_ge_minus_one)
  have x14: "0 \<le> x ^ 14 / 87178291200" using assms by simp
  have r: "(?c / fact 14) * x ^ 14 = ?c * (x ^ 14 / 87178291200)" by (simp add: f)
  have u: "?c * (x ^ 14 / 87178291200) \<le> 1 * (x ^ 14 / 87178291200)"
    using c1 x14 by (rule mult_right_mono)
  have l: "(- 1) * (x ^ 14 / 87178291200) \<le> ?c * (x ^ 14 / 87178291200)"
    using c2 x14 by (rule mult_right_mono)
  show "1 - x^2 / 2 + x^4 / 24 - x^6 / 720 + x^8 / 40320 - x^10 / 3628800 + x^12 / 479001600
           - x^14 / 87178291200 \<le> cos x"
    using l unfolding t r cos_poly_14 by simp
  show "cos x \<le> 1 - x^2 / 2 + x^4 / 24 - x^6 / 720 + x^8 / 40320 - x^10 / 3628800
           + x^12 / 479001600 + x^14 / 87178291200"
    using u unfolding t r cos_poly_14 by simp
qed

lemma pi_lower: "3141592 / 1000000 < pi"
proof -
  let ?a = "1570796 / 1000000 :: real"
  have "0 < 1 - ?a^2 / 2 + ?a^4 / 24 - ?a^6 / 720 + ?a^8 / 40320 - ?a^10 / 3628800 + ?a^12 / 479001600
           - ?a^14 / 87178291200"
    by (simp add: power_divide)
  also have "\<dots> \<le> cos ?a" by (rule cos_bounds_14) simp
  finally have pos: "0 < cos ?a" .
  have "?a < pi / 2"
  proof (rule ccontr)
    assume "\<not> ?a < pi / 2"
    then have h: "pi / 2 \<le> ?a" by simp
    have "?a \<le> 2" by simp
    also have "2 \<le> pi" by (rule pi_ge_two)
    finally have "?a \<le> pi" .
    then have "cos ?a \<le> cos (pi / 2)"
      using h by (intro cos_monotone_0_pi_le) auto
    then show False using pos by simp
  qed
  then show ?thesis by simp
qed

lemma pi_upper: "pi < 3141594 / 1000000"
proof -
  let ?b = "1570797 / 1000000 :: real"
  have "cos ?b \<le> 1 - ?b^2 / 2 + ?b^4 / 24 - ?b^6 / 720 + ?b^8 / 40320 - ?b^10 / 3628800
           + ?b^12 / 479001600 + ?b^14 / 87178291200"
    by (rule cos_bounds_14) simp
  also have "\<dots> < 0" by (simp add: power_divide)
  finally have neg: "cos ?b < 0" .
  have "pi / 2 < ?b"
  proof (rule ccontr)
    assume "\<not> pi / 2 < ?b"
    then have h: "?b \<le> pi / 2" by simp
    have "- (pi / 2) \<le> 0" by simp
    also have "0 \<le> ?b" by simp
    finally have "0 \<le> cos ?b" using h by (rule cos_ge_zero)
    then show False using neg by simp
  qed
  then show ?thesis by simp
qed


lemma great_circle_from_origin:
  assumes "0 \<le> d" and "d \<le> 180"
  shows "great_circle_nm (0, 0) (0, d) = EARTH_RADIUS_NM * d * pi / 180"
  using great_circle_equator [OF assms, of 0] by simp

lemma build_trajectory_ok:
  assumes "0 < sum_list (segment_distances points)" and "0 < sample_sec"
  shows "build_trajectory flight points sample_sec =
           Inr (sample_loop flight points (segment_distances points) (max 1 (speed_kt flight))
                  (total_flight_sec flight points) sample_sec 0
                  (0, 0, hd (segment_distances points)))"
  using assms by (simp add: build_trajectory_def total_flight_sec_def Let_def)

lemma total_flight_sec_pos:
  assumes "0 < sum_list (segment_distances points)"
  shows "0 < total_flight_sec flight points"
proof -
  have "0 < real_of_int (max 1 (speed_kt flight))" by simp
  then have "0 < sum_list (segment_distances points) / real_of_int (max 1 (speed_kt flight)) * 3600"
    using assms by simp
  then show ?thesis unfolding total_flight_sec_def by (simp only: zero_less_ceiling)
qed

text \<open>
  Claim C2, as the code has it. For a route of strictly positive total distance,
  \<open>build_trajectory\<close> with the default cadence of 60 s returns a trajectory, and it
  holds one point for every multiple of 60 in \<open>[0, T]\<close>, where \<open>T\<close> is the total flight
  time in seconds: \<open>T div 60 + 1\<close> points. That is at least one point, and at least two
  exactly when \<open>T\<close> is at least 60.
\<close>

theorem build_trajectory_point_count:
  assumes "0 < sum_list (segment_distances points)"
  shows "case build_trajectory flight points 60 of
           Inl e \<Rightarrow> False
         | Inr trajectory \<Rightarrow>
             length trajectory = nat (total_flight_sec flight points div 60) + 1
             \<and> 1 \<le> length trajectory
             \<and> (2 \<le> length trajectory) = (60 \<le> total_flight_sec flight points)"
proof -
  let ?T = "total_flight_sec flight points"
  have T: "0 < ?T" using assms by (rule total_flight_sec_pos)
  have d: "0 \<le> ?T div 60" using T by (simp add: pos_imp_zdiv_nonneg_iff)
  have two: "(1 \<le> ?T div 60) = (60 \<le> ?T)" by presburger
  have "(2 \<le> nat (?T div 60) + 1) = (60 \<le> ?T)" using d two by auto
  then show ?thesis
    using T by (simp add: build_trajectory_ok [OF assms] sample_loop_length)
qed

lemma sample_loop_done:
  "total_sec < elapsed \<Longrightarrow>
     sample_loop flight points distances speed total_sec sample_sec elapsed st = []"
  by (subst sample_loop.simps) simp

lemma sample_loop_step:
  assumes "elapsed \<le> total_sec" and "0 < sample_sec"
    and "advance_segment distances st = (si, sp, sr)"
  shows "sample_loop flight points distances speed total_sec sample_sec elapsed st =
     \<lparr>tp_acid = acid flight,
      lat = fst (if si \<ge> length distances then last points
                 else interpolate (points ! si) (points ! (si + 1))
                        (min 1 (sp / max (1 / 1000000) (distances ! si)))),
      lon = snd (if si \<ge> length distances then last points
                 else interpolate (points ! si) (points ! (si + 1))
                        (min 1 (sp / max (1 / 1000000) (distances ! si)))),
      tp_altitude_ft = altitude_ft flight,
      timestamp = departure_time flight + elapsed,
      tp_speed_kt = Some (speed_kt flight)\<rparr>
     # sample_loop flight points distances speed total_sec sample_sec (elapsed + sample_sec)
         (si, sp + real_of_int (speed * sample_sec) / 3600,
          sr - real_of_int (speed * sample_sec) / 3600)"
  using assms by (subst sample_loop.simps) (simp add: Let_def split_beta)

lemma one_degree_distance:
  "sum_list (segment_distances one_degree_route) = EARTH_RADIUS_NM * pi / 180"
  using great_circle_from_origin [of 1] by (simp add: one_degree_route_def)

lemma one_degree_total_sec: "total_flight_sec jet_44000 one_degree_route = 601"
proof -
  have e: "sum_list (segment_distances one_degree_route) / real_of_int (max 1 (speed_kt jet_44000)) * 3600
             = 3440065 * pi / 18000"
    by (simp add: one_degree_distance jet_44000_def EARTH_RADIUS_NM_def)
  have "600 < 3440065 * pi / 18000" using pi_lower by simp
  moreover have "3440065 * pi / 18000 \<le> 601" using pi_upper by simp
  ultimately have "\<lceil>3440065 * pi / 18000\<rceil> = 601" by (simp add: ceiling_eq_iff)
  then show ?thesis unfolding total_flight_sec_def e .
qed

theorem build_trajectory_point_count_witness:
  "0 < sum_list (segment_distances one_degree_route)
   \<and> total_flight_sec jet_44000 one_degree_route = 601
   \<and> (case build_trajectory jet_44000 one_degree_route 60 of
         Inl e \<Rightarrow> False | Inr trajectory \<Rightarrow> length trajectory = 11)"
proof -
  have p: "0 < sum_list (segment_distances one_degree_route)"
    by (simp add: one_degree_distance EARTH_RADIUS_NM_def)
  show ?thesis
    using build_trajectory_point_count [OF p, of jet_44000] p one_degree_total_sec
    by (auto split: sum.splits)
qed

lemma short_hop_distance:
  "sum_list (segment_distances short_hop_route) = EARTH_RADIUS_NM * pi / 180000"
  using great_circle_from_origin [of "1 / 1000"] by (simp add: short_hop_route_def)

lemma short_hop_total_sec: "total_flight_sec jet_44000 short_hop_route = 1"
proof -
  have e: "sum_list (segment_distances short_hop_route) / real_of_int (max 1 (speed_kt jet_44000)) * 3600
             = 3440065 * pi / 18000000"
    by (simp add: short_hop_distance jet_44000_def EARTH_RADIUS_NM_def)
  have "0 < 3440065 * pi / 18000000" by simp
  moreover have "3440065 * pi / 18000000 \<le> 1" using pi_upper by simp
  ultimately have "\<lceil>3440065 * pi / 18000000\<rceil> = 1" by (simp add: ceiling_eq_iff)
  then show ?thesis unfolding total_flight_sec_def e .
qed

text \<open>
  A thousandth of a degree along the equator is about 0.06 nm; at 360 kt the flight time
  rounds up to one second, and the only sample is the one at the departure time.
\<close>

theorem build_trajectory_two_points_counterexample:
  "0 < sum_list (segment_distances short_hop_route)
   \<and> build_trajectory jet_44000 short_hop_route 60 =
       Inr [\<lparr>tp_acid = ''AC1'', lat = 0, lon = 0, tp_altitude_ft = 44000, timestamp = 0,
             tp_speed_kt = Some 360\<rparr>]"
proof -
  have p: "0 < sum_list (segment_distances short_hop_route)"
    by (simp add: short_hop_distance EARTH_RADIUS_NM_def)
  have g: "0 < great_circle_nm (0, 0) (0, 1 / 1000)"
    using p by (simp add: short_hop_route_def)
  have a: "advance_segment [great_circle_nm (0, 0) (0, 1 / 1000)] (0, 0, great_circle_nm (0, 0) (0, 1 / 1000))
             = (0, 0, great_circle_nm (0, 0) (0, 1 / 1000))"
    using g by (subst advance_segment.simps) simp
  have "sample_loop jet_44000 short_hop_route (segment_distances short_hop_route)
          (max 1 (speed_kt jet_44000)) 1 60 0 (0, 0, hd (segment_distances short_hop_route))
        = [\<lparr>tp_acid = ''AC1'', lat = 0, lon = 0, tp_altitude_ft = 44000, timestamp = 0,
             tp_speed_kt = Some 360\<rparr>]"
    using g
    by (simp add: sample_loop_step [OF _ _ a] sample_loop_done short_hop_route_def
        jet_44000_def interpolate_def Let_def)
  then show ?thesis
    using p by (simp add: build_trajectory_ok [OF p] short_hop_total_sec)
qed

section \<open>Properties of the conflict detector\<close>

lemma dict_append_keys: "set (map fst (dict_append k v d)) = insert k (set (map fst d))"
  by (induction k v d rule: dict_append.induct) (simp_all add: insert_commute)

lemma dict_append_distinct: "distinct (map fst d) \<Longrightarrow> distinct (map fst (dict_append k v d))"
proof (induction d)
  case Nil
  then show ?case by simp
next
  case (Cons e d)
  obtain k' vs where e: "e = (k', vs)" by (cases e)
  show ?case
  proof (cases "k = k'")
    case True
    with Cons.prems e show ?thesis by simp
  next
    case False
    have "k' \<notin> set (map fst (dict_append k v d))"
      using Cons.prems e False by (simp only: dict_append_keys) auto
    with Cons e False show ?thesis by simp
  qed
qed

lemma dict_append_entries:
  assumes "list_all entry_ok raw" and "fst p < snd p" and "hit_ok x"
  shows "list_all entry_ok (dict_append p x raw)"
  using assms(1)
proof (induction raw)
  case Nil
  then show ?case using assms(2,3) by (simp add: entry_ok_def)
next
  case (Cons e raw)
  obtain k vs where e: "e = (k, vs)" by (cases e)
  show ?case using Cons e assms(3) by (auto simp: entry_ok_def)
qed

lemma dict_append_ok:
  "raw_ok raw \<Longrightarrow> fst p < snd p \<Longrightarrow> hit_ok x \<Longrightarrow> raw_ok (dict_append p x raw)"
  by (simp add: raw_ok_def dict_append_distinct dict_append_entries)

lemma sorted_pair_less: "x \<noteq> y \<Longrightarrow> fst (sorted_pair x y) < snd (sorted_pair x y)"
  by (auto simp: sorted_pair_def)

lemma scan_pair_ok:
  assumes "raw_ok (snd st)"
  shows "raw_ok (snd (scan_pair a st b))"
proof -
  obtain checked raw where st: "st = (checked, raw)" by (cases st)
  show ?thesis
  proof (cases "tp_acid a = tp_acid b")
    case True
    then show ?thesis using assms st by (simp add: scan_pair_def)
  next
    case False
    let ?p = "sorted_pair (tp_acid a) (tp_acid b)"
    let ?h = "great_circle_nm (lat a, lon a) (lat b, lon b)"
    let ?v = "\<bar>tp_altitude_ft a - tp_altitude_ft b\<bar>"
    have lt: "fst ?p < snd ?p" using False by (rule sorted_pair_less)
    have "?h < HORIZONTAL_THRESHOLD_NM \<and> ?v < VERTICAL_THRESHOLD_FT
            \<Longrightarrow> raw_ok (dict_append ?p (timestamp a, ?h, ?v) raw)"
      using assms st lt by (intro dict_append_ok) (auto simp: hit_ok_def)
    then show ?thesis using assms st False by (auto simp: scan_pair_def Let_def)
  qed
qed

lemma foldl_snd_invariant:
  assumes "\<And>st x. P (snd st) \<Longrightarrow> P (snd (f st x))" and "P (snd st)"
  shows "P (snd (foldl f st xs))"
  using assms(2)
proof (induction xs arbitrary: st)
  case Nil
  then show ?case by simp
next
  case (Cons x xs)
  have "P (snd (f st x))" using Cons.prems by (rule assms(1))
  then have "P (snd (foldl f (f st x) xs))" by (rule Cons.IH)
  then show ?case by simp
qed

lemma foldl_invariant:
  assumes "\<And>s x. P s \<Longrightarrow> P (f s x)" and "P s"
  shows "P (foldl f s xs)"
  using assms(2)
proof (induction xs arbitrary: s)
  case Nil
  then show ?case by simp
next
  case (Cons x xs)
  have "P (f s x)" using Cons.prems by (rule assms(1))
  then have "P (foldl f (f s x) xs)" by (rule Cons.IH)
  then show ?case by simp
qed

lemma scan_bucket_ok: "raw_ok (snd st) \<Longrightarrow> raw_ok (snd (scan_bucket spatial st entry))"
  unfolding scan_bucket_def Let_def
  by (rule foldl_snd_invariant, rule foldl_snd_invariant, rule scan_pair_ok)

lemma scan_bin_ok: "raw_ok raw \<Longrightarrow> raw_ok (scan_bin bucket_deg raw entry)"
  unfolding scan_bin_def Let_def
  by (rule foldl_snd_invariant [where P = raw_ok], rule scan_bucket_ok) simp_all

lemma collect_hits_ok: "raw_ok (collect_hits trajectories tbs bucket_deg)"
  unfolding collect_hits_def Let_def
  by (rule foldl_invariant [where P = raw_ok], rule scan_bin_ok) (simp_all add: raw_ok_def)


lemma round4_le_5:
  assumes "x < 5"
  shows "round4 x \<le> 5"
proof -
  have "x * 10000 < 50000" using assms by simp
  then have "\<lfloor>x * 10000\<rfloor> < 50000" by (simp add: floor_less_iff)
  then have f: "\<lfloor>x * 10000\<rfloor> + 1 \<le> 50000" by simp
  have "real_of_int (if x * 10000 - of_int \<lfloor>x * 10000\<rfloor> < 1 / 2 then \<lfloor>x * 10000\<rfloor>
                     else if 1 / 2 < x * 10000 - of_int \<lfloor>x * 10000\<rfloor> then \<lfloor>x * 10000\<rfloor> + 1
                     else if even \<lfloor>x * 10000\<rfloor> then \<lfloor>x * 10000\<rfloor> else \<lfloor>x * 10000\<rfloor> + 1)
          \<le> real_of_int 50000"
    using f by (intro of_int_le_iff [THEN iffD2]) auto
  then show ?thesis by (simp add: round4_def Let_def)
qed

lemma round4_near:
  assumes "real_of_int n - 1 / 2 < x * 10000" and "x * 10000 < real_of_int n + 1 / 2"
  shows "round4 x = real_of_int n / 10000"
proof (cases "real_of_int n \<le> x * 10000")
  case True
  have "x * 10000 < real_of_int n + 1" using assms(2) by simp
  then have f: "\<lfloor>x * 10000\<rfloor> = n" using True by (simp add: floor_eq_iff)
  show ?thesis using assms(2) by (simp add: round4_def Let_def f)
next
  case False
  have "real_of_int (n - 1) \<le> x * 10000" using assms(1) by simp
  moreover have "x * 10000 < real_of_int (n - 1) + 1" using False by simp
  ultimately have f: "\<lfloor>x * 10000\<rfloor> = n - 1" by (simp only: floor_eq_iff) 
  show ?thesis using assms(1) by (simp add: round4_def Let_def f)
qed

lemma make_event_ok:
  assumes "0 \<le> tbs" and "s \<le> e" and "mh < 5" and "0 \<le> mv" and "mv < 2000"
  shows "event_ok pair (make_event tbs pair s e mh mv)"
  using assms by (simp add: event_ok_def make_event_def round4_le_5)

lemma coalesce_loop_ok:
  assumes "0 \<le> tbs" and "s \<le> e" and "mh < 5" and "0 \<le> mv" and "mv < 2000"
    and "list_all hit_ok hits" and "sorted (map fst hits)" and "\<forall>x\<in>set hits. e \<le> fst x"
  shows "list_all (event_ok pair) (coalesce_loop tbs pair (s, e, mh, mv) hits)"
  using assms(2-)
proof (induction hits arbitrary: s e mh mv)
  case Nil
  then show ?case using assms(1) by (simp add: make_event_ok)
next
  case (Cons x hits)
  obtain ts horiz vert where x: "x = (ts, horiz, vert)" by (cases x)
  have hx: "horiz < 5" "0 \<le> vert" "vert < 2000"
    using Cons.prems(5) x
    by (simp_all add: hit_ok_def HORIZONTAL_THRESHOLD_NM_def VERTICAL_THRESHOLD_FT_def)
  have rest: "list_all hit_ok hits" "sorted (map fst hits)" "\<forall>y\<in>set hits. ts \<le> fst y"
    using Cons.prems(5,6) x by auto
  have ets: "e \<le> ts" using Cons.prems(7) x by simp
  show ?case
  proof (cases "ts \<le> e + tbs")
    case True
    have "list_all (event_ok pair) (coalesce_loop tbs pair (s, ts, min mh horiz, min mv vert) hits)"
      using Cons.prems(1-4) hx rest ets by (intro Cons.IH) auto
    with True x show ?thesis by simp
  next
    case False
    have "list_all (event_ok pair) (coalesce_loop tbs pair (ts, ts, horiz, vert) hits)"
      using hx rest by (intro Cons.IH) auto
    moreover have "event_ok pair (make_event tbs pair s e mh mv)"
      using assms(1) Cons.prems(1-4) by (rule make_event_ok)
    ultimately show ?thesis using False x by simp
  qed
qed

lemma coalesce_loop_starts:
  assumes "s \<le> e" and "sorted (map fst hits)" and "\<forall>x\<in>set hits. e \<le> fst x"
  shows "sorted (map start_time (coalesce_loop tbs pair (s, e, mh, mv) hits))
       \<and> (\<forall>ev\<in>set (coalesce_loop tbs pair (s, e, mh, mv) hits). s \<le> start_time ev)"
  using assms
proof (induction hits arbitrary: s e mh mv)
  case Nil
  then show ?case by (simp add: make_event_def)
next
  case (Cons x hits)
  obtain ts horiz vert where x: "x = (ts, horiz, vert)" by (cases x)
  have rest: "sorted (map fst hits)" "\<forall>y\<in>set hits. ts \<le> fst y"
    using Cons.prems(2) x by auto
  have ets: "e \<le> ts" using Cons.prems(3) x by simp
  show ?case
  proof (cases "ts \<le> e + tbs")
    case True
    have "s \<le> ts" using Cons.prems(1) ets by simp
    then show ?thesis using Cons.IH [OF _ rest, of s "min mh horiz" "min mv vert"] True x by simp
  next
    case False
    have ih: "sorted (map start_time (coalesce_loop tbs pair (ts, ts, horiz, vert) hits))
       \<and> (\<forall>ev\<in>set (coalesce_loop tbs pair (ts, ts, horiz, vert) hits). ts \<le> start_time ev)"
      using Cons.IH [OF _ rest, of ts horiz vert] by simp
    have sts: "s \<le> ts" using Cons.prems(1) ets by simp
    show ?thesis using ih sts False x by (auto simp: make_event_def)
  qed
qed

lemma coalesce_ok:
  assumes "0 \<le> tbs" and "entry_ok entry"
  shows "list_all (event_ok (fst entry)) (coalesce tbs entry)"
proof (cases "sort_key fst (snd entry)")
  case Nil
  then show ?thesis by (simp add: coalesce_def)
next
  case (Cons x hits)
  obtain ts horiz vert where x: "x = (ts, horiz, vert)" by (cases x)
  have all: "list_all hit_ok (x # hits)"
    using assms(2) Cons [symmetric] by (simp add: entry_ok_def list_all_iff)
  have srt: "sorted (map fst (x # hits))"
    using sorted_sort_key [of fst "snd entry"] Cons by simp
  have hx: "horiz < 5" "0 \<le> vert" "vert < 2000"
    using all x by (simp_all add: hit_ok_def HORIZONTAL_THRESHOLD_NM_def VERTICAL_THRESHOLD_FT_def)
  have "list_all (event_ok (fst entry)) (coalesce_loop tbs (fst entry) (ts, ts, horiz, vert) hits)"
    using assms(1) hx all srt x by (intro coalesce_loop_ok) auto
  then show ?thesis using Cons x by (simp add: coalesce_def)
qed

lemma coalesce_starts: "sorted (map start_time (coalesce tbs entry))"
proof (cases "sort_key fst (snd entry)")
  case Nil
  then show ?thesis by (simp add: coalesce_def)
next
  case (Cons x hits)
  obtain ts horiz vert where x: "x = (ts, horiz, vert)" by (cases x)
  have srt: "sorted (map fst (x # hits))"
    using sorted_sort_key [of fst "snd entry"] Cons by simp
  have "sorted (map start_time (coalesce_loop tbs (fst entry) (ts, ts, horiz, vert) hits))"
    using srt x coalesce_loop_starts [of ts ts hits tbs "fst entry" horiz vert] by auto
  then show ?thesis using Cons x by (simp add: coalesce_def)
qed

lemma coalesce_pair:
  "ev \<in> set (coalesce tbs entry) \<Longrightarrow> (flight_a ev, flight_b ev) = fst entry"
proof -
  have loop: "\<And>st hits. ev \<in> set (coalesce_loop tbs (fst entry) st hits)
                 \<Longrightarrow> (flight_a ev, flight_b ev) = fst entry"
  proof -
    fix st :: "int \<times> int \<times> real \<times> int" and hits :: "hit list"
    assume "ev \<in> set (coalesce_loop tbs (fst entry) st hits)"
    then show "(flight_a ev, flight_b ev) = fst entry"
    proof (induction hits arbitrary: st)
      case Nil
      obtain s e mh mv where "st = (s, e, mh, mv)" by (cases st)
      with Nil show ?case by (simp add: make_event_def)
    next
      case (Cons x hits)
      obtain s e mh mv where st: "st = (s, e, mh, mv)" by (cases st)
      obtain ts horiz vert where x: "x = (ts, horiz, vert)" by (cases x)
      show ?case using Cons st x by (auto simp: make_event_def split: if_splits)
    qed
  qed
  assume "ev \<in> set (coalesce tbs entry)"
  then show ?thesis
    by (auto simp: coalesce_def split: list.splits dest: loop)
qed


lemma great_circle_same: "great_circle_nm p p = 0"
  by (simp add: great_circle_nm_def Let_def)

lemma less_AB: "''A'' < ''B''" "\<not> ''B'' < ''A''"
  by (simp_all add: less_char_def)

lemma twice_severe_hits: "collect_hits twice_severe 60 1 = [((''A'', ''B''), [(0, 0, 1000), (600, 0, 0)])]"
  by (simp add: collect_hits_def twice_severe_def point_at_def scan_bin_def scan_bucket_def
      scan_pair_def bucket_key_def neighbor_keys_def dict_get_def sorted_pair_def great_circle_same
      HORIZONTAL_THRESHOLD_NM_def VERTICAL_THRESHOLD_FT_def Let_def less_char_def)

lemma twice_severe_conflicts: "detect_conflicts twice_severe 60 1 =
   Inr [\<lparr>flight_a = ''A'', flight_b = ''B'', start_time = 600, end_time = 660,
         min_horizontal_nm = 0, min_vertical_ft = 0, severity = 2\<rparr>,
        \<lparr>flight_a = ''A'', flight_b = ''B'', start_time = 0, end_time = 60,
         min_horizontal_nm = 0, min_vertical_ft = 1000, severity = 3 / 2\<rparr>]"
  by (simp add: detect_conflicts_def conflicts_unsorted_def twice_severe_hits coalesce_def make_event_def
      severity_of_def round4_def HORIZONTAL_THRESHOLD_NM_def VERTICAL_THRESHOLD_FT_def Let_def)


lemma conflicts_unsorted_ok:
  assumes "0 \<le> tbs" and "ev \<in> set (conflicts_unsorted trajectories tbs bucket_deg)"
  shows "flight_a ev < flight_b ev \<and> start_time ev \<le> end_time ev
         \<and> min_horizontal_nm ev \<le> 5 \<and> 0 \<le> min_vertical_ft ev \<and> min_vertical_ft ev < 2000"
proof -
  obtain entry where en: "entry \<in> set (collect_hits trajectories tbs bucket_deg)"
      and ev: "ev \<in> set (coalesce tbs entry)"
    using assms(2) by (auto simp: conflicts_unsorted_def)
  have ok: "entry_ok entry"
    using collect_hits_ok [of trajectories tbs bucket_deg] en
    by (simp add: raw_ok_def list_all_iff)
  have "event_ok (fst entry) ev"
    using coalesce_ok [OF assms(1) ok] ev by (simp add: list_all_iff)
  then show ?thesis using ok by (simp add: event_ok_def entry_ok_def)
qed

lemma concat_coalesce_pair_order:
  assumes "distinct (map fst raw)"
  shows "sorted_wrt (\<lambda>e1 e2. (flight_a e1, flight_b e1) = (flight_a e2, flight_b e2)
                        \<longrightarrow> start_time e1 \<le> start_time e2)
           (concat (map (coalesce tbs) raw))"
  using assms
proof (induction raw)
  case Nil
  then show ?case by simp
next
  case (Cons entry raw)
  let ?S = "\<lambda>e1 e2. (flight_a e1, flight_b e1) = (flight_a e2, flight_b e2)
                        \<longrightarrow> start_time e1 \<le> start_time e2"
  have "sorted_wrt (\<lambda>x y. start_time x \<le> start_time y) (coalesce tbs entry)"
    using coalesce_starts [of tbs entry] by (simp add: sorted_map)
  then have blk: "sorted_wrt ?S (coalesce tbs entry)"
    by (rule sorted_wrt_mono_rel [rotated]) simp
  have rest: "sorted_wrt ?S (concat (map (coalesce tbs) raw))"
    using Cons by simp
  have cross: "\<forall>x\<in>set (coalesce tbs entry). \<forall>y\<in>set (concat (map (coalesce tbs) raw)). ?S x y"
  proof (intro ballI)
    fix x y
    assume x: "x \<in> set (coalesce tbs entry)" and y: "y \<in> set (concat (map (coalesce tbs) raw))"
    obtain entry' where e': "entry' \<in> set raw" and y': "y \<in> set (coalesce tbs entry')"
      using y by auto
    have "fst entry \<noteq> fst entry'" using Cons.prems e' by auto
    then show "?S x y" using coalesce_pair [OF x] coalesce_pair [OF y'] by simp
  qed
  show ?case using blk rest cross by (simp add: sorted_wrt_append)
qed

lemma conflicts_unsorted_pair_order:
  "sorted_wrt (\<lambda>e1 e2. (flight_a e1, flight_b e1) = (flight_a e2, flight_b e2)
                        \<longrightarrow> start_time e1 \<le> start_time e2)
     (conflicts_unsorted trajectories tbs bucket_deg)"
  unfolding conflicts_unsorted_def
  using collect_hits_ok [of trajectories tbs bucket_deg]
  by (intro concat_coalesce_pair_order) (simp add: raw_ok_def)

lemma insort_key_stable_order:
  fixes f :: "'a \<Rightarrow> real"
  assumes "sorted (map f ys)"
    and "sorted_wrt (\<lambda>a b. f a < f b \<or> (f a = f b \<and> S a b)) ys"
    and "\<forall>y\<in>set ys. S x y"
  shows "sorted_wrt (\<lambda>a b. f a < f b \<or> (f a = f b \<and> S a b)) (insort_key f x ys)"
  using assms
proof (induction ys)
  case Nil
  then show ?case by simp
next
  case (Cons y ys)
  show ?case
  proof (cases "f x \<le> f y")
    case True
    have "\<forall>z\<in>set (y # ys). f x < f z \<or> (f x = f z \<and> S x z)"
    proof
      fix z assume z: "z \<in> set (y # ys)"
      have "f y \<le> f z" using Cons.prems(1) z by auto
      then have "f x \<le> f z" using True by simp
      moreover have "S x z" using Cons.prems(3) z by blast
      ultimately show "f x < f z \<or> (f x = f z \<and> S x z)" by auto
    qed
    then show ?thesis using True Cons.prems(2) by simp
  next
    case False
    have ih: "sorted_wrt (\<lambda>a b. f a < f b \<or> (f a = f b \<and> S a b)) (insort_key f x ys)"
      using Cons.prems by (intro Cons.IH) auto
    have "\<forall>z\<in>set (insort_key f x ys). f y < f z \<or> (f y = f z \<and> S y z)"
      using False Cons.prems(2) by (auto simp: set_insort_key)
    then show ?thesis using False ih by simp
  qed
qed

lemma sort_key_stable_order:
  fixes f :: "'a \<Rightarrow> real"
  assumes "sorted_wrt S xs"
  shows "sorted_wrt (\<lambda>a b. f a < f b \<or> (f a = f b \<and> S a b)) (sort_key f xs)"
  using assms
proof (induction xs)
  case Nil
  then show ?case by simp
next
  case (Cons x xs)
  have "sorted_wrt (\<lambda>a b. f a < f b \<or> (f a = f b \<and> S a b)) (insort_key f x (sort_key f xs))"
    using Cons by (intro insort_key_stable_order) auto
  then show ?case by simp
qed

text \<open>
  Claim C5, as the code has it. The returned list is sorted by severity, so the events of
  one flight pair appear in order of descending severity, and those of equal severity in
  order of non-decreasing \<open>start_time\<close> (the sort is stable and the events of a pair are
  built in the order of their start times).
\<close>

theorem detect_conflicts_pair_order:
  assumes "detect_conflicts trajectories tbs bucket_deg = Inr events"
  shows "sorted_wrt (\<lambda>e1 e2. severity e2 < severity e1
                        \<or> (severity e1 = severity e2 \<and> start_time e1 \<le> start_time e2))
           (filter (\<lambda>e. flight_a e = a \<and> flight_b e = b) events)"
proof -
  let ?S = "\<lambda>e1 e2. (flight_a e1, flight_b e1) = (flight_a e2, flight_b e2)
                        \<longrightarrow> start_time e1 \<le> start_time e2"
  let ?f = "\<lambda>c. - severity c"
  have ev: "events = sort_key ?f (conflicts_unsorted trajectories tbs bucket_deg)"
    using assms by (simp add: detect_conflicts_def split: if_splits)
  have "sorted_wrt (\<lambda>a b. ?f a < ?f b \<or> (?f a = ?f b \<and> ?S a b)) events"
    unfolding ev by (rule sort_key_stable_order) (rule conflicts_unsorted_pair_order)
  then have "sorted_wrt (\<lambda>a b. ?f a < ?f b \<or> (?f a = ?f b \<and> ?S a b))
               (filter (\<lambda>e. flight_a e = a \<and> flight_b e = b) events)"
    by (rule sorted_wrt_filter)
  then show ?thesis
    by (rule sorted_wrt_mono_rel [rotated]) auto
qed

text \<open>
  Claim C6, as the code has it. For a positive bin width (60 by default), every event
  returned by \<open>detect_conflicts\<close> has \<open>flight_a < flight_b\<close>, \<open>start_time \<le> end_time\<close>,
  a reported \<open>min_horizontal_nm\<close> of at most 5.0 (the minimum itself is below 5.0, and
  rounding to 4 decimals can bring it to 5.0) and \<open>min_vertical_ft < 2000\<close>.
\<close>

theorem detect_conflicts_well_formed:
  assumes "detect_conflicts trajectories tbs bucket_deg = Inr events" and "0 < tbs"
  shows "list_all (\<lambda>e. flight_a e < flight_b e \<and> start_time e \<le> end_time e
                       \<and> min_horizontal_nm e \<le> 5 \<and> min_vertical_ft e < 2000) events"
proof -
  have ev: "events = sort_key (\<lambda>c. - severity c) (conflicts_unsorted trajectories tbs bucket_deg)"
    using assms(1) by (simp add: detect_conflicts_def split: if_splits)
  have t: "0 \<le> tbs" using assms(2) by simp
  show ?thesis
    unfolding ev list_all_iff using conflicts_unsorted_ok [OF t] by auto
qed


lemma values_length_dict_append:
  "sum_list (map (\<lambda>e. length (snd e)) (dict_append k v d))
     = Suc (sum_list (map (\<lambda>e. length (snd e)) d))"
  by (induction k v d rule: dict_append.induct) simp_all

lemma dict_append_neq: "dict_append k v d \<noteq> d"
proof
  assume "dict_append k v d = d"
  then have "sum_list (map (\<lambda>e. length (snd e)) (dict_append k v d))
               = sum_list (map (\<lambda>e. length (snd e)) d)" by simp
  then show False by (simp add: values_length_dict_append)
qed

lemma scan_pair_hit:
  assumes "tp_acid a \<noteq> tp_acid b"
    and "(sorted_pair (tp_acid a) (tp_acid b), timestamp a) \<notin> checked"
  shows "snd (scan_pair a (checked, raw) b) =
           (if great_circle_nm (lat a, lon a) (lat b, lon b) < 5
               \<and> \<bar>tp_altitude_ft a - tp_altitude_ft b\<bar> < 2000
            then dict_append (sorted_pair (tp_acid a) (tp_acid b))
                   (timestamp a, great_circle_nm (lat a, lon a) (lat b, lon b),
                    \<bar>tp_altitude_ft a - tp_altitude_ft b\<bar>) raw
            else raw)
       \<and> (snd (scan_pair a (checked, raw) b) \<noteq> raw) =
           (great_circle_nm (lat a, lon a) (lat b, lon b) < 5
            \<and> \<bar>tp_altitude_ft a - tp_altitude_ft b\<bar> < 2000)"
  using assms
  by (simp add: scan_pair_def Let_def HORIZONTAL_THRESHOLD_NM_def VERTICAL_THRESHOLD_FT_def
      dict_append_neq)

lemma vertical_2000_no_conflict: "detect_conflicts vertical_2000 60 1 = Inr []"
  by (simp add: detect_conflicts_def conflicts_unsorted_def collect_hits_def vertical_2000_def
      point_at_def scan_bin_def scan_bucket_def scan_pair_def bucket_key_def neighbor_keys_def
      dict_get_def sorted_pair_def great_circle_same HORIZONTAL_THRESHOLD_NM_def
      VERTICAL_THRESHOLD_FT_def Let_def less_char_def)

lemma sorted_pair_commute: "sorted_pair x y = sorted_pair y x"
  by (auto simp: sorted_pair_def)









lemma neighbor_keys_self: "k \<in> set (neighbor_keys k)"
  by (cases k) (simp add: neighbor_keys_def)




lemma two_point_spatial:
  "foldl (\<lambda>sp point. dict_append (bucket_key (lat point) (lon point) bucket_deg) point sp) [] [a, b]
     = (if bucket_key (lat b) (lon b) bucket_deg = bucket_key (lat a) (lon a) bucket_deg
        then [(bucket_key (lat a) (lon a) bucket_deg, [a, b])]
        else [(bucket_key (lat a) (lon a) bucket_deg, [a]), (bucket_key (lat b) (lon b) bucket_deg, [b])])"
  by simp
































lemma twice_equal_conflicts: "detect_conflicts twice_equal 60 1 =
   Inr [\<lparr>flight_a = ''A'', flight_b = ''B'', start_time = 0, end_time = 60,
         min_horizontal_nm = 0, min_vertical_ft = 0, severity = 2\<rparr>,
        \<lparr>flight_a = ''A'', flight_b = ''B'', start_time = 600, end_time = 660,
         min_horizontal_nm = 0, min_vertical_ft = 0, severity = 2\<rparr>]"
  by (simp add: detect_conflicts_def conflicts_unsorted_def collect_hits_def twice_equal_def
      point_at_def scan_bin_def scan_bucket_def scan_pair_def bucket_key_def neighbor_keys_def
      dict_get_def sorted_pair_def great_circle_same coalesce_def make_event_def
      severity_of_def round4_def HORIZONTAL_THRESHOLD_NM_def VERTICAL_THRESHOLD_FT_def Let_def
      less_char_def)

theorem detect_conflicts_pair_order_witness:
  "detect_conflicts twice_equal 60 1 =
     Inr [\<lparr>flight_a = ''A'', flight_b = ''B'', start_time = 0, end_time = 60,
           min_horizontal_nm = 0, min_vertical_ft = 0, severity = 2\<rparr>,
          \<lparr>flight_a = ''A'', flight_b = ''B'', start_time = 600, end_time = 660,
           min_horizontal_nm = 0, min_vertical_ft = 0, severity = 2\<rparr>]
   \<and> sorted_wrt (\<lambda>e1 e2. severity e2 < severity e1
                        \<or> (severity e1 = severity e2 \<and> start_time e1 \<le> start_time e2))
        [\<lparr>flight_a = ''A'', flight_b = ''B'', start_time = 0, end_time = 60,
           min_horizontal_nm = 0, min_vertical_ft = 0, severity = 2\<rparr>,
          \<lparr>flight_a = ''A'', flight_b = ''B'', start_time = 600, end_time = 660,
           min_horizontal_nm = 0, min_vertical_ft = 0, severity = 2\<rparr>]"
  using detect_conflicts_pair_order [OF twice_equal_conflicts, of "''A''" "''B''"]
    twice_equal_conflicts
  by simp

text \<open>
  Two flights meet at time 0, 1000 ft apart, and at time 600 at the same level. The later
  event is the more severe one and comes first in the returned list.
\<close>

theorem detect_conflicts_start_order_counterexample:
  "detect_conflicts twice_severe 60 1 =
   Inr [\<lparr>flight_a = ''A'', flight_b = ''B'', start_time = 600, end_time = 660,
         min_horizontal_nm = 0, min_vertical_ft = 0, severity = 2\<rparr>,
        \<lparr>flight_a = ''A'', flight_b = ''B'', start_time = 0, end_time = 60,
         min_horizontal_nm = 0, min_vertical_ft = 1000, severity = 3 / 2\<rparr>]"
  by (rule twice_severe_conflicts)

theorem detect_conflicts_well_formed_witness:
  "detect_conflicts twice_severe 60 1 =
   Inr [\<lparr>flight_a = ''A'', flight_b = ''B'', start_time = 600, end_time = 660,
         min_horizontal_nm = 0, min_vertical_ft = 0, severity = 2\<rparr>,
        \<lparr>flight_a = ''A'', flight_b = ''B'', start_time = 0, end_time = 60,
         min_horizontal_nm = 0, min_vertical_ft = 1000, severity = 3 / 2\<rparr>]
   \<and> (0::int) < 60 \<and> ''A'' < ''B''"
  using detect_conflicts_well_formed [OF twice_severe_conflicts] twice_severe_conflicts by simp

lemma near_miss_distance:
  "great_circle_nm (0, 0) (0, 83277 / 1000000) = 3440065 * 83277 * pi / 180000000000"
  using great_circle_from_origin [of "83277 / 1000000"] by (simp add: EARTH_RADIUS_NM_def)

lemma near_miss_bounds:
  "499995 / 100000 < great_circle_nm (0, 0) (0, 83277 / 1000000)"
  "great_circle_nm (0, 0) (0, 83277 / 1000000) < 5"
  using pi_lower pi_upper by (simp_all add: near_miss_distance)

lemma near_miss_round: "round4 (great_circle_nm (0, 0) (0, 83277 / 1000000)) = 5"
  using round4_near [of 50000 "great_circle_nm (0, 0) (0, 83277 / 1000000)"] near_miss_bounds
  by simp

lemma near_miss_severity: "severity_of (great_circle_nm (0, 0) (0, 83277 / 1000000)) 0 = 1"
proof -
  define g where "g = great_circle_nm (0, 0) (0, 83277 / 1000000)"
  have b1: "499995 / 100000 < g" and b2: "g < 5"
    using near_miss_bounds by (simp_all add: g_def)
  have m: "max 0 ((5 - g) / 5) = (5 - g) / 5" using b2 by simp
  have e: "((5 - g) / 5 + 1) * 10000 = 20000 - 2000 * g" by (simp add: field_simps)
  have l: "real_of_int 10000 - 1 / 2 < ((5 - g) / 5 + 1) * 10000"
    unfolding e using b2 by simp
  have u: "((5 - g) / 5 + 1) * 10000 < real_of_int 10000 + 1 / 2"
    unfolding e using b1 by simp
  have "round4 ((5 - g) / 5 + 1) = real_of_int 10000 / 10000"
    using l u by (rule round4_near)
  then have "severity_of g 0 = 1"
    by (simp add: severity_of_def HORIZONTAL_THRESHOLD_NM_def VERTICAL_THRESHOLD_FT_def m Let_def)
  then show ?thesis by (simp add: g_def)
qed

lemma near_miss_hits:
  "collect_hits near_miss 60 1
     = [((''A'', ''B''), [(0, great_circle_nm (0, 0) (0, 83277 / 1000000), 0)])]"
  using near_miss_bounds(2)
  by (simp add: collect_hits_def near_miss_def point_at_def scan_bin_def scan_bucket_def
      scan_pair_def bucket_key_def neighbor_keys_def dict_get_def sorted_pair_def
      HORIZONTAL_THRESHOLD_NM_def VERTICAL_THRESHOLD_FT_def Let_def less_char_def)

text \<open>
  Two flights at the same level, 0.083277 degrees of longitude apart on the equator: their
  distance lies between 4.99995 and 5 nm, a conflict, and is reported as 5.0.
\<close>

theorem detect_conflicts_rounding_counterexample:
  "detect_conflicts near_miss 60 1 =
     Inr [\<lparr>flight_a = ''A'', flight_b = ''B'', start_time = 0, end_time = 60,
           min_horizontal_nm = 5, min_vertical_ft = 0, severity = 1\<rparr>]"
  by (simp add: detect_conflicts_def conflicts_unsorted_def near_miss_hits coalesce_def
      make_event_def near_miss_round near_miss_severity)

end
